theory Spec2Isabelle
  imports Main
begin

section \<open>Values, errors and message payloads\<close>

text \<open>
  The Python values the validators are run on: \<open>None\<close>, integers, the float NaN,
  strings, lists and tuples. A NaN is equal to no value, itself included, and a set
  finds it by the identity of its object alone; \<open>VNaN\<close> carries that identity, so that
  membership in a set is structural equality on the values modelled. The other floats
  and the booleans are left out.
\<close>

datatype pyval =
    VNone
  | VInt int
  | VNaN nat
  | VStr string
  | VList "pyval list"
  | VTuple "pyval list"

text \<open>
  A path segment of an error payload (an index or a key), and the payload of a
  \<open>ValidationError\<close>: one message, a sequence of payloads, or a mapping from path
  segments to payloads (kept in insertion order, as a Python dict is).
\<close>

datatype segment = Idx nat | Key string

datatype messages =
    Msg string
  | MsgList "messages list"
  | MsgDict "(segment \<times> messages) list"

text \<open>
  The exceptions that the modelled code raises or lets through. \<open>ValueError\<close> is the
  configuration error and \<open>KeyError\<close> the lookup error of the specification.
\<close>

datatype error =
    ValidationError messages
  | ValueError string
  | KeyError string
  | TypeError
  | AttributeError string

text \<open>
  \<open>str.format\<close> with keyword arguments is a built-in of the language; every function
  that formats a message takes it as its first argument.
\<close>

type_synonym formatter = "string \<Rightarrow> (string \<times> pyval) list \<Rightarrow> string"

type_synonym error_messages = "string \<rightharpoonup> string"

text \<open>
  Sequencing of computations that may raise: the exception of the first one is
  propagated, otherwise its result is passed on.
\<close>

fun raising :: "error + 'a \<Rightarrow> ('a \<Rightarrow> error + 'b) \<Rightarrow> error + 'b" where
  "raising (Inl e) f = Inl e"
| "raising (Inr x) f = f x"

subsection \<open>ErrorMessagesMixin\<close>

text \<open>
  Modelled from the spec: \<open>lollipop/errors.py\<close> (\<open>ErrorMessagesMixin\<close>) is not among the
  sources. The per-instance table is seeded from the class-level default table and
  overridden by the \<open>error_messages\<close> constructor argument.
\<close>

definition ErrorMessagesMixin_init :: "error_messages \<Rightarrow> error_messages \<Rightarrow> error_messages" where
  "ErrorMessagesMixin_init default_error_messages error_messages =
     default_error_messages ++ error_messages"

text \<open>
  Modelled from the spec: \<open>ErrorMessagesMixin._fail\<close> is not among the sources. It looks
  the template of the key up, fails fatally (a configuration error) when the key is
  unknown, and otherwise raises a \<open>ValidationError\<close> whose payload is the template
  formatted with the substitutions. It never returns.
\<close>

definition fail :: "formatter \<Rightarrow> error_messages \<Rightarrow> string \<Rightarrow> (string \<times> pyval) list \<Rightarrow> error + unit" where
  "fail fmt msgs error_key kwargs =
     (case msgs error_key of
        None \<Rightarrow> Inl (ValueError error_key)
      | Some template \<Rightarrow> Inl (ValidationError (Msg (fmt template kwargs))))"

text \<open>Storing one template under each key of a list: \<open>for key in keys: d[key] = error\<close>.\<close>

fun set_all :: "string list \<Rightarrow> string \<Rightarrow> error_messages \<Rightarrow> error_messages" where
  "set_all [] err msgs = msgs"
| "set_all (key # keys) err msgs = set_all keys err (msgs(key \<mapsto> err))"

subsection \<open>Comparisons\<close>

text \<open>
  \<open>value < bound\<close> and \<open>value > bound\<close> against an integer bound: the order of the
  integers, false when the value is a NaN, and a \<open>TypeError\<close> on every other value
  modelled.
\<close>

fun py_lt :: "pyval \<Rightarrow> int \<Rightarrow> error + bool" where
  "py_lt (VInt v) b = Inr (v < b)"
| "py_lt (VNaN i) b = Inr False"
| "py_lt _ b = Inl TypeError"

fun py_gt :: "pyval \<Rightarrow> int \<Rightarrow> error + bool" where
  "py_gt (VInt v) b = Inr (v > b)"
| "py_gt (VNaN i) b = Inr False"
| "py_gt _ b = Inl TypeError"


text \<open>An optional integer as a Python value (\<open>None\<close> when absent).\<close>

fun opt_val :: "int option \<Rightarrow> pyval" where
  "opt_val None = VNone"
| "opt_val (Some n) = VInt n"

section \<open>Range\<close>

record Range =
  range_min :: "int option"
  range_max :: "int option"
  range_messages :: error_messages

definition Range_default_error_messages :: error_messages where
  "Range_default_error_messages =
     [''min'' \<mapsto> ''Value should be at least {min}'',
      ''max'' \<mapsto> ''Value should be at most {max}'',
      ''range'' \<mapsto> ''Value should be at least {min} and at most {max}'']"

definition Range_init :: "int option \<Rightarrow> int option \<Rightarrow> string option \<Rightarrow> error_messages \<Rightarrow> Range" where
  "Range_init mn mx err error_messages =
     (let msgs = ErrorMessagesMixin_init Range_default_error_messages error_messages in
      \<lparr>range_min = mn, range_max = mx,
       range_messages =
         (case err of
            None \<Rightarrow> msgs
          | Some e \<Rightarrow> set_all [''min'', ''max'', ''range''] e msgs)\<rparr>)"

definition Range_fail :: "formatter \<Rightarrow> Range \<Rightarrow> string \<Rightarrow> (string \<times> pyval) list \<Rightarrow> error + unit" where
  "Range_fail fmt r error_key kwargs =
     fail fmt (range_messages r) error_key
       ([(''min'', opt_val (range_min r)), (''max'', opt_val (range_max r))] @ kwargs)"

definition Range_call :: "formatter \<Rightarrow> Range \<Rightarrow> pyval \<Rightarrow> pyval \<Rightarrow> error + unit" where
  "Range_call fmt r val context =
     (case (range_min r, range_max r) of
        (Some lo, Some hi) \<Rightarrow>
          raising (py_lt val lo) (\<lambda>below.
            if below then Range_fail fmt r ''range'' [(''data'', val)]
            else raising (py_gt val hi) (\<lambda>above.
              if above then Range_fail fmt r ''range'' [(''data'', val)]
              else Inr ()))
      | (Some lo, None) \<Rightarrow>
          raising (py_lt val lo) (\<lambda>below.
            if below then Range_fail fmt r ''min'' [(''data'', val)] else Inr ())
      | (None, Some hi) \<Rightarrow>
          raising (py_gt val hi) (\<lambda>above.
            if above then Range_fail fmt r ''max'' [(''data'', val)] else Inr ())
      | (None, None) \<Rightarrow> Inr ())"

section \<open>Length\<close>

text \<open>\<open>len(value)\<close>: defined on strings, lists and tuples, a \<open>TypeError\<close> otherwise.\<close>

fun py_len :: "pyval \<Rightarrow> error + int" where
  "py_len (VStr s) = Inr (int (length s))"
| "py_len (VList xs) = Inr (int (length xs))"
| "py_len (VTuple xs) = Inr (int (length xs))"
| "py_len _ = Inl TypeError"

record Length =
  length_exact :: "int option"
  length_min :: "int option"
  length_max :: "int option"
  length_messages :: error_messages

definition Length_default_error_messages :: error_messages where
  "Length_default_error_messages =
     [''exact'' \<mapsto> ''Length should be {exact}'',
      ''min'' \<mapsto> ''Length should be at least {min}'',
      ''max'' \<mapsto> ''Length should be at most {max}'',
      ''range'' \<mapsto> ''Length should be at least {min} and at most {max}'']"

definition Length_init ::
  "int option \<Rightarrow> int option \<Rightarrow> int option \<Rightarrow> string option \<Rightarrow> error_messages \<Rightarrow> Length" where
  "Length_init exact mn mx err error_messages =
     (let msgs = ErrorMessagesMixin_init Length_default_error_messages error_messages in
      \<lparr>length_exact = exact, length_min = mn, length_max = mx,
       length_messages =
         (case err of
            None \<Rightarrow> msgs
          | Some e \<Rightarrow> set_all [''exact'', ''min'', ''max'', ''range''] e msgs)\<rparr>)"

definition Length_fail :: "formatter \<Rightarrow> Length \<Rightarrow> string \<Rightarrow> (string \<times> pyval) list \<Rightarrow> error + unit" where
  "Length_fail fmt l error_key kwargs =
     fail fmt (length_messages l) error_key
       ([(''exact'', opt_val (length_exact l)), (''min'', opt_val (length_min l)),
         (''max'', opt_val (length_max l))] @ kwargs)"

definition Length_call :: "formatter \<Rightarrow> Length \<Rightarrow> pyval \<Rightarrow> pyval \<Rightarrow> error + unit" where
  "Length_call fmt l val context =
     raising (py_len val) (\<lambda>len.
       case length_exact l of
         Some k \<Rightarrow>
           if len \<noteq> k then Length_fail fmt l ''exact'' [(''data'', val), (''length'', VInt len)]
           else Inr ()
       | None \<Rightarrow>
           (case (length_min l, length_max l) of
              (Some lo, Some hi) \<Rightarrow>
                if len < lo \<or> len > hi
                then Length_fail fmt l ''range'' [(''data'', val), (''length'', VInt len)]
                else Inr ()
            | (Some lo, None) \<Rightarrow>
                if len < lo
                then Length_fail fmt l ''min'' [(''data'', val), (''length'', VInt len)]
                else Inr ()
            | (None, Some hi) \<Rightarrow>
                if len > hi
                then Length_fail fmt l ''max'' [(''data'', val), (''length'', VInt len)]
                else Inr ()
            | (None, None) \<Rightarrow> Inr ()))"

section \<open>Sequences\<close>

text \<open>
  \<open>is_sequence\<close> is \<open>isinstance(value, Sequence)\<close>: strings, lists and tuples are
  sequences, \<open>None\<close> and integers are not.
\<close>

fun is_sequence :: "pyval \<Rightarrow> bool" where
  "is_sequence (VStr s) = True"
| "is_sequence (VList xs) = True"
| "is_sequence (VTuple xs) = True"
| "is_sequence _ = False"

text \<open>
  The items a \<open>for\<close> loop over the value visits, in order; a string yields its
  characters as one-character strings. Iterating \<open>None\<close> or an integer is a
  \<open>TypeError\<close>.
\<close>

fun py_iter :: "pyval \<Rightarrow> error + pyval list" where
  "py_iter (VStr s) = Inr (map (\<lambda>c. VStr [c]) s)"
| "py_iter (VList xs) = Inr xs"
| "py_iter (VTuple xs) = Inr xs"
| "py_iter _ = Inl TypeError"

text \<open>
  Membership in and insertion into a Python \<open>set\<close> hash the element: lists are
  unhashable, a tuple is hashable when all its items are, every other value modelled
  is hashable.
\<close>

fun hashable :: "pyval \<Rightarrow> bool" where
  "hashable VNone = True"
| "hashable (VInt n) = True"
| "hashable (VNaN i) = True"
| "hashable (VStr s) = True"
| "hashable (VList xs) = False"
| "hashable (VTuple xs) = list_all hashable xs"

definition identity :: "'a \<Rightarrow> 'a" where
  "identity val = val"

section \<open>Unique\<close>

text \<open>The key function is a user callable: it returns a key or raises.\<close>

record Unique =
  unique_key :: "pyval \<Rightarrow> error + pyval"
  unique_messages :: error_messages

definition Unique_default_error_messages :: error_messages where
  "Unique_default_error_messages =
     [''invalid'' \<mapsto> ''Value should be collection'',
      ''unique'' \<mapsto> ''Values are not unique'']"

definition Unique_init ::
  "(pyval \<Rightarrow> error + pyval) \<Rightarrow> string option \<Rightarrow> error_messages \<Rightarrow> Unique" where
  "Unique_init key err error_messages =
     (let msgs = ErrorMessagesMixin_init Unique_default_error_messages error_messages in
      \<lparr>unique_key = key,
       unique_messages =
         (case err of
            None \<Rightarrow> msgs
          | Some e \<Rightarrow> msgs(''unique'' \<mapsto> e))\<rparr>)"

text \<open>The loop over the items, with the set of the keys seen so far.\<close>

fun Unique_loop :: "formatter \<Rightarrow> Unique \<Rightarrow> pyval set \<Rightarrow> pyval list \<Rightarrow> error + unit" where
  "Unique_loop fmt u seen [] = Inr ()"
| "Unique_loop fmt u seen (item # items) =
     raising (unique_key u item) (\<lambda>key.
       if \<not> hashable key then Inl TypeError
       else if key \<in> seen
       then fail fmt (unique_messages u) ''unique'' [(''data'', item), (''key'', key)]
       else Unique_loop fmt u (insert key seen) items)"

definition Unique_call :: "formatter \<Rightarrow> Unique \<Rightarrow> pyval \<Rightarrow> pyval \<Rightarrow> error + unit" where
  "Unique_call fmt u val context =
     (if \<not> is_sequence val then fail fmt (unique_messages u) ''invalid'' []
      else raising (py_iter val) (Unique_loop fmt u {}))"

section \<open>Each\<close>

subsection \<open>ValidationErrorBuilder\<close>

text \<open>
  Modelled from the spec: \<open>ValidationErrorBuilder\<close> (\<open>lollipop/errors.py\<close>) is not among
  the sources. The accumulator maps a path segment to the one or more raw error
  payloads recorded under it, in the order in which they were recorded.
\<close>

type_synonym ValidationErrorBuilder = "(segment \<times> messages list) list"

definition ValidationErrorBuilder_init :: ValidationErrorBuilder where
  "ValidationErrorBuilder_init = []"

fun add_error :: "segment \<Rightarrow> messages \<Rightarrow> ValidationErrorBuilder \<Rightarrow> ValidationErrorBuilder" where
  "add_error k m [] = [(k, [m])]"
| "add_error k m ((k', ms) # rest) =
     (if k = k' then (k', ms @ [m]) # rest else (k', ms) # add_error k m rest)"

text \<open>
  Modelled from the spec: \<open>add_errors\<close> takes a mapping from path segments to payloads
  and records every entry of it.
\<close>

fun add_errors :: "ValidationErrorBuilder \<Rightarrow> (segment \<times> messages) list \<Rightarrow> ValidationErrorBuilder" where
  "add_errors b [] = b"
| "add_errors b ((k, m) # errors) = add_errors (add_error k m b) errors"

text \<open>
  Modelled from the spec: \<open>raise_errors\<close> raises nothing when no failure was recorded,
  and otherwise exactly one \<open>ValidationError\<close> whose payload holds all the recorded
  contributions under their path segments.
\<close>

definition raise_errors :: "ValidationErrorBuilder \<Rightarrow> error + unit" where
  "raise_errors b =
     (if b = [] then Inr ()
      else Inl (ValidationError (MsgDict (map (\<lambda>(k, ms). (k, MsgList ms)) b))))"

subsection \<open>The validator\<close>

text \<open>
  A validator is called with the value and the context (the context parameter of
  \<open>Validator.__call__\<close> defaults to \<open>None\<close>); it returns nothing or raises.
\<close>

type_synonym validator = "pyval \<Rightarrow> pyval \<Rightarrow> error + unit"

record Each =
  each_validators :: "validator list"
  each_messages :: error_messages

definition Each_default_error_messages :: error_messages where
  "Each_default_error_messages = [''invalid'' \<mapsto> ''Value should be collection'']"

text \<open>
  The constructor takes one validator (\<open>Inl\<close>) or a sequence of validators (\<open>Inr\<close>).
\<close>

definition Each_init :: "validator + validator list \<Rightarrow> error_messages \<Rightarrow> Each" where
  "Each_init validators error_messages =
     \<lparr>each_validators = (case validators of Inl v \<Rightarrow> [v] | Inr vs \<Rightarrow> vs),
      each_messages = ErrorMessagesMixin_init Each_default_error_messages error_messages\<rparr>"

text \<open>
  The inner loop: every validator is called on the item alone, so with the default
  context. A \<open>ValidationError\<close> is caught and recorded under the index of the item;
  any other exception is not caught.
\<close>

fun Each_item ::
  "validator list \<Rightarrow> nat \<Rightarrow> pyval \<Rightarrow> ValidationErrorBuilder \<Rightarrow> error + ValidationErrorBuilder" where
  "Each_item [] idx item b = Inr b"
| "Each_item (v # vs) idx item b =
     (case v item VNone of
        Inr _ \<Rightarrow> Each_item vs idx item b
      | Inl (ValidationError ve) \<Rightarrow> Each_item vs idx item (add_errors b [(Idx idx, ve)])
      | Inl e \<Rightarrow> Inl e)"

text \<open>The outer loop, over \<open>enumerate(value)\<close> from the index given.\<close>

fun Each_loop ::
  "validator list \<Rightarrow> nat \<Rightarrow> pyval list \<Rightarrow> ValidationErrorBuilder \<Rightarrow> error + ValidationErrorBuilder" where
  "Each_loop vs idx [] b = Inr b"
| "Each_loop vs idx (item # items) b =
     raising (Each_item vs idx item b) (Each_loop vs (Suc idx) items)"

definition Each_call :: "formatter \<Rightarrow> Each \<Rightarrow> pyval \<Rightarrow> pyval \<Rightarrow> error + unit" where
  "Each_call fmt e val context =
     (if \<not> is_sequence val then fail fmt (each_messages e) ''invalid'' [(''data'', val)]
      else raising (py_iter val) (\<lambda>items.
        raising (Each_loop (each_validators e) 0 items ValidationErrorBuilder_init)
          raise_errors))"

subsection \<open>What the loops accumulate\<close>

text \<open>
  The specification that the loops of \<open>Each.__call__\<close> are compared with.
  \<open>Each_recorded\<close> lists the payloads of the \<open>ValidationError\<close>s that the validators
  raise on one item, in the order of the validators. \<open>Each_combined\<close> is the combined
  payload: for every index, in order, at which some validator fails, the payloads
  recorded at that index.
\<close>

definition Each_recorded :: "validator list \<Rightarrow> pyval \<Rightarrow> messages list" where
  "Each_recorded vs item = [ve. v \<leftarrow> vs, Inl (ValidationError ve) \<leftarrow> [v item VNone]]"

definition Each_combined :: "validator list \<Rightarrow> nat \<Rightarrow> pyval list \<Rightarrow> (segment \<times> messages list) list" where
  "Each_combined vs start items =
     [(Idx idx, Each_recorded vs item).
        (idx, item) \<leftarrow> enumerate start items, Each_recorded vs item \<noteq> []]"

section \<open>Regexp\<close>

text \<open>
  A compiled pattern of the \<open>re\<close> module (compiled with no flags): its source text,
  and the syntax tree of the fragment of the pattern language modelled here:
  a literal character, a character class, \<open>^\<close>, \<open>$\<close>, concatenation, \<open>|\<close>, \<open>*\<close>
  and \<open>+\<close>.
\<close>

datatype regex =
    Lit char
  | CharClass "char list"
  | Bol
  | Eol
  | Seq regex regex
  | Alt regex regex
  | Star regex
  | Plus regex

record Pattern =
  pattern :: string
  syntax_tree :: regex

text \<open>
  The positions reachable from the positions \<open>ps\<close> by at most \<open>n\<close> rounds of
  \<open>step\<close> (the repetition of a sub-pattern).
\<close>

primrec repeat :: "(nat \<Rightarrow> nat list) \<Rightarrow> nat \<Rightarrow> nat list \<Rightarrow> nat list" where
  "repeat step 0 ps = ps"
| "repeat step (Suc n) ps = remdups (ps @ repeat step n (remdups (concat (map step ps))))"

text \<open>
  \<open>ends r s i\<close>: the positions at which a match of \<open>r\<close> that starts at position \<open>i\<close>
  of \<open>s\<close> can end. \<open>^\<close> matches at the start of the string; \<open>$\<close> matches at the end of
  the string and just before a newline that ends the string.
\<close>

primrec ends :: "regex \<Rightarrow> string \<Rightarrow> nat \<Rightarrow> nat list" where
  "ends (Lit c) s i = (if i < length s \<and> s ! i = c then [Suc i] else [])"
| "ends (CharClass cs) s i = (if i < length s \<and> s ! i \<in> set cs then [Suc i] else [])"
| "ends Bol s i = (if i = 0 then [i] else [])"
| "ends Eol s i =
     (if i = length s \<or> (Suc i = length s \<and> s ! i = CHR 0x0A) then [i] else [])"
| "ends (Seq a b) s i = remdups (concat (map (ends b s) (ends a s i)))"
| "ends (Alt a b) s i = remdups (ends a s i @ ends b s i)"
| "ends (Star a) s i = repeat (ends a s) (length s) [i]"
| "ends (Plus a) s i = repeat (ends a s) (length s) (ends a s i)"

text \<open>\<open>matches p s\<close> is \<open>p.match(s) is not None\<close>: some match starts at position 0.\<close>

definition matches :: "Pattern \<Rightarrow> string \<Rightarrow> bool" where
  "matches p s = (ends (syntax_tree p) s 0 \<noteq> [])"

text \<open>\<open>p.match(value)\<close> on a value that is not a string is a \<open>TypeError\<close>.\<close>

fun py_match :: "Pattern \<Rightarrow> pyval \<Rightarrow> error + bool" where
  "py_match p (VStr s) = Inr (matches p s)"
| "py_match p _ = Inl TypeError"

record Regexp =
  regexp :: Pattern
  regexp_messages :: error_messages

definition Regexp_default_error_messages :: error_messages where
  "Regexp_default_error_messages =
     [''invalid'' \<mapsto> ''String does not match expected pattern'']"

text \<open>
  The constructor takes the source of a pattern (\<open>Inl\<close>), which it compiles with the
  flags given, or a compiled pattern (\<open>Inr\<close>). \<open>re.compile\<close> is a parameter; it
  raises on a malformed pattern.
\<close>

definition Regexp_init ::
  "(string \<Rightarrow> int \<Rightarrow> error + Pattern) \<Rightarrow> string + Pattern \<Rightarrow> int \<Rightarrow> string option \<Rightarrow>
   error_messages \<Rightarrow> error + Regexp" where
  "Regexp_init compile re flags err error_messages =
     (let msgs = ErrorMessagesMixin_init Regexp_default_error_messages error_messages in
      raising (case re of Inl src \<Rightarrow> compile src flags | Inr p \<Rightarrow> Inr p) (\<lambda>p.
        Inr \<lparr>regexp = p,
             regexp_messages =
               (case err of None \<Rightarrow> msgs | Some e \<Rightarrow> msgs(''invalid'' \<mapsto> e))\<rparr>))"

definition Regexp_call :: "formatter \<Rightarrow> Regexp \<Rightarrow> pyval \<Rightarrow> pyval \<Rightarrow> error + unit" where
  "Regexp_call fmt r val context =
     raising (py_match (regexp r) val) (\<lambda>found.
       if \<not> found
       then fail fmt (regexp_messages r) ''invalid''
              [(''data'', val), (''regexp'', VStr (pattern (regexp r)))]
       else Inr ())"

section \<open>Context-aware callables\<close>

text \<open>
  What \<open>make_context_aware\<close> looks at in a callable: which of \<open>inspect.ismethod\<close>,
  \<open>inspect.isfunction\<close> and \<open>inspect.isclass\<close> holds of it (\<open>Object\<close> when none does),
  and the outcome of \<open>inspect.getfullargspec\<close> on the callable itself, on its
  \<open>__init__\<close> and on its \<open>__call__\<close>: the \<open>FullArgSpec\<close>, or \<open>None\<close> when the inspection
  fails (\<open>getfullargspec\<close> then raises a \<open>TypeError\<close>, whatever went wrong). Of a
  \<open>FullArgSpec\<close> the code reads \<open>args\<close> and \<open>kwonlyargs\<close>. \<open>body\<close> is the call of the
  callable on positional arguments.
\<close>

datatype callable_kind = Method | Function | Class | Object

record FullArgSpec =
  args :: "string list"
  kwonlyargs :: "string list"

record callable =
  kind :: callable_kind
  fullargspec :: "FullArgSpec option"
  init_fullargspec :: "FullArgSpec option"
  call_fullargspec :: "FullArgSpec option"
  body :: "pyval list \<Rightarrow> error + pyval"

text \<open>
  \<open>get_arg_count\<close>, on the outcome of \<open>inspect.getfullargspec(func)\<close>. The sources are
  Python 3 only (\<open>PY2\<close> is false), so the \<open>getargspec\<close> branch is never taken.
\<close>

definition get_arg_count :: "FullArgSpec option \<Rightarrow> error + int" where
  "get_arg_count inspected =
     (case inspected of
        None \<Rightarrow> Inl TypeError
      | Some spec \<Rightarrow> Inr (int (length (args spec)) + int (length (kwonlyargs spec))))"

text \<open>
  The \<open>try\<close> block of \<open>make_context_aware\<close>: a \<open>TypeError\<close> of the inspection is
  caught and gives \<open>numargs\<close>; an exception of another class would not be caught.
\<close>

definition inspect_arg_count :: "callable \<Rightarrow> int \<Rightarrow> error + int" where
  "inspect_arg_count func numargs =
     (case (case kind func of
              Method \<Rightarrow> raising (get_arg_count (fullargspec func)) (\<lambda>n. Inr (n - 1))
            | Function \<Rightarrow> get_arg_count (fullargspec func)
            | Class \<Rightarrow> raising (get_arg_count (init_fullargspec func)) (\<lambda>n. Inr (n - 1))
            | Object \<Rightarrow> raising (get_arg_count (call_fullargspec func)) (\<lambda>n. Inr (n - 1)))
      of Inl TypeError \<Rightarrow> Inr numargs
       | Inl e \<Rightarrow> Inl e
       | Inr arg_count \<Rightarrow> Inr arg_count)"

text \<open>
  What \<open>make_context_aware\<close> returns: the closure \<open>normalized\<close> over \<open>func\<close>, which
  calls \<open>func\<close> on all its arguments but the last, or \<open>func\<close> itself.
\<close>

datatype context_aware = Normalized callable | Unchanged callable

definition make_context_aware :: "callable \<Rightarrow> int \<Rightarrow> error + context_aware" where
  "make_context_aware func numargs =
     raising (inspect_arg_count func numargs) (\<lambda>arg_count.
       if arg_count \<le> numargs then Inr (Normalized func) else Inr (Unchanged func))"

fun invoke :: "context_aware \<Rightarrow> pyval list \<Rightarrow> error + pyval" where
  "invoke (Normalized func) arguments = body func (butlast arguments)"
| "invoke (Unchanged func) arguments = body func arguments"

definition call_with_context :: "callable \<Rightarrow> pyval \<Rightarrow> pyval list \<Rightarrow> error + pyval" where
  "call_with_context func context arguments =
     raising (make_context_aware func (int (length arguments))) (\<lambda>f.
       invoke f (arguments @ [context]))"

section \<open>TypeRegistry and TypeRef\<close>

text \<open>
  The interface of a \<open>Type\<close> (\<open>lollipop/types.py\<close> is not among the sources) that
  \<open>TypeRef\<close> forwards to: \<open>load\<close> and \<open>dump\<close> on positional arguments, and attribute
  lookup, which raises an \<open>AttributeError\<close> for a missing attribute.
\<close>

record ltype =
  type_load :: "pyval list \<Rightarrow> error + pyval"
  type_dump :: "pyval list \<Rightarrow> error + pyval"
  type_getattr :: "string \<Rightarrow> error + pyval"

record TypeRegistry =
  types :: "string \<rightharpoonup> ltype"

definition TypeRegistry_init :: TypeRegistry where
  "TypeRegistry_init = \<lparr>types = Map.empty\<rparr>"

text \<open>Every method returns its outcome and the registry as the call leaves it.\<close>

definition TypeRegistry_add ::
  "TypeRegistry \<Rightarrow> string \<Rightarrow> ltype \<Rightarrow> (error + ltype) \<times> TypeRegistry" where
  "TypeRegistry_add reg name a_type =
     (if name \<in> dom (types reg)
      then (Inl (ValueError (''Type with name '' @ [CHR 0x22] @ name @ [CHR 0x22] @
                             '' is already registered'')), reg)
      else (Inr a_type, reg\<lparr>types := (types reg)(name \<mapsto> a_type)\<rparr>))"

definition TypeRegistry__get :: "TypeRegistry \<Rightarrow> string \<Rightarrow> error + ltype" where
  "TypeRegistry__get reg name =
     (case types reg name of
        None \<Rightarrow> Inl (KeyError (''Type with name '' @ [CHR 0x22] @ name @ [CHR 0x22] @
                               '' is not registered''))
      | Some a_type \<Rightarrow> Inr a_type)"

text \<open>
  A \<open>TypeRef\<close> holds the resolver \<open>_get_type\<close>, a closure that reads the registry as
  it is when the closure is called, and the cache \<open>_inner_type\<close>. \<open>resolver_calls\<close>
  is not a field of the class: it counts the calls of \<open>_get_type\<close>, and nothing
  reads it.
\<close>

record TypeRef =
  get_type :: "TypeRegistry \<Rightarrow> error + ltype"
  inner_type_cache :: "ltype option"
  resolver_calls :: nat

definition TypeRef_init :: "(TypeRegistry \<Rightarrow> error + ltype) \<Rightarrow> TypeRef" where
  "TypeRef_init resolver =
     \<lparr>get_type = resolver, inner_type_cache = None, resolver_calls = 0\<rparr>"

definition TypeRegistry_get :: "TypeRegistry \<Rightarrow> string \<Rightarrow> TypeRef \<times> TypeRegistry" where
  "TypeRegistry_get reg name =
     (TypeRef_init (\<lambda>self. TypeRegistry__get self name), reg)"

definition TypeRegistry_getitem :: "TypeRegistry \<Rightarrow> string \<Rightarrow> TypeRef \<times> TypeRegistry" where
  "TypeRegistry_getitem reg key = TypeRegistry_get reg key"

text \<open>
  The property \<open>inner_type\<close>, in the registry as it is at the time of the access:
  the outcome, and the \<open>TypeRef\<close> as the access leaves it. When the resolver raises,
  the cache is not assigned.
\<close>

definition inner_type :: "TypeRegistry \<Rightarrow> TypeRef \<Rightarrow> (error + ltype) \<times> TypeRef" where
  "inner_type reg r =
     (case inner_type_cache r of
        None \<Rightarrow>
          (case get_type r reg of
             Inl e \<Rightarrow> (Inl e, r\<lparr>resolver_calls := Suc (resolver_calls r)\<rparr>)
           | Inr t \<Rightarrow>
               (Inr t, r\<lparr>inner_type_cache := Some t,
                          resolver_calls := Suc (resolver_calls r)\<rparr>))
      | Some t \<Rightarrow> (Inr t, r))"

definition TypeRef_load :: "TypeRegistry \<Rightarrow> TypeRef \<Rightarrow> pyval list \<Rightarrow> (error + pyval) \<times> TypeRef" where
  "TypeRef_load reg r arguments =
     (case inner_type reg r of (res, r') \<Rightarrow> (raising res (\<lambda>t. type_load t arguments), r'))"

definition TypeRef_dump :: "TypeRegistry \<Rightarrow> TypeRef \<Rightarrow> pyval list \<Rightarrow> (error + pyval) \<times> TypeRef" where
  "TypeRef_dump reg r arguments =
     (case inner_type reg r of (res, r') \<Rightarrow> (raising res (\<lambda>t. type_dump t arguments), r'))"

text \<open>
  The method \<open>__getattr__\<close>. Python calls it only for a name that normal lookup does
  not find on the \<open>TypeRef\<close>.
\<close>

definition TypeRef_getattr :: "TypeRegistry \<Rightarrow> TypeRef \<Rightarrow> string \<Rightarrow> (error + pyval) \<times> TypeRef" where
  "TypeRef_getattr reg r name =
     (case inner_type reg r of (res, r') \<Rightarrow> (raising res (\<lambda>t. type_getattr t name), r'))"

text \<open>
  The names that normal lookup finds on a \<open>TypeRef\<close> by the class \<open>TypeRef\<close> itself:
  the instance attributes that \<open>__init__\<close> assigns and the methods of the class. The
  property \<open>inner_type\<close> is also found by normal lookup, and reading it runs its
  getter.
\<close>

definition TypeRef_own_attributes :: "string set" where
  "TypeRef_own_attributes =
     {''_get_type'', ''_inner_type'', ''load'', ''dump'', ''__init__'', ''__hasattr__'',
      ''__getattr__''}"

text \<open>
  What an attribute access gives: the \<open>TypeRef\<close>'s own attribute of that name, the
  resolved type (the property \<open>inner_type\<close>), or the value that \<open>__getattr__\<close> returns.
\<close>

datatype attribute = Own string | Resolved ltype | Forwarded pyval

text \<open>
  The attribute access \<open>ref.name\<close>. \<open>inherited\<close> holds the names of the attributes that
  \<open>Type\<close> and \<open>object\<close> give to the instance (\<open>lollipop/types.py\<close> is not among the
  sources). Normal lookup comes first: the property \<open>inner_type\<close> runs its getter, an
  own or inherited attribute is returned as it is, and only for every other name
  \<open>__getattr__\<close> is called. The resolver of a \<open>TypeRef\<close> that the registry builds
  returns or raises a \<open>KeyError\<close>, so the getter of the property raises no
  \<open>AttributeError\<close> that would make the lookup fall back to \<open>__getattr__\<close>.
\<close>

definition TypeRef_attribute ::
  "string set \<Rightarrow> TypeRegistry \<Rightarrow> TypeRef \<Rightarrow> string \<Rightarrow> (error + attribute) \<times> TypeRef" where
  "TypeRef_attribute inherited reg r name =
     (if name = ''inner_type''
      then (case inner_type reg r of (res, r') \<Rightarrow> (raising res (\<lambda>t. Inr (Resolved t)), r'))
      else if name \<in> TypeRef_own_attributes \<union> inherited then (Inr (Own name), r)
      else (case TypeRef_getattr reg r name of
              (res, r') \<Rightarrow> (raising res (\<lambda>v. Inr (Forwarded v)), r')))"

section \<open>Properties\<close>

lemma set_all_apply:
  "set_all keys err msgs k = (if k \<in> set keys then Some err else msgs k)"
  by (induction keys arbitrary: msgs) auto

lemma Range_init_fields:
  "range_min (Range_init mn mx err em) = mn"
  "range_max (Range_init mn mx err em) = mx"
  by (simp_all add: Range_init_def Let_def)


subsection \<open>Range\<close>



subsection \<open>Length\<close>

lemma Length_init_fields:
  "length_exact (Length_init ex mn mx err em) = ex"
  "length_min (Length_init ex mn mx err em) = mn"
  "length_max (Length_init ex mn mx err em) = mx"
  by (simp_all add: Length_init_def Let_def)

lemma Length_init_template:
  "k \<in> {''exact'', ''min'', ''max'', ''range''} \<Longrightarrow>
   \<exists>t. length_messages (Length_init ex mn mx err em) k = Some t \<and>
       (case err of Some e \<Rightarrow> t = e | None \<Rightarrow> True)"
  by (auto simp: Length_init_def Let_def set_all_apply ErrorMessagesMixin_init_def
      Length_default_error_messages_def map_add_def split: option.splits)

lemma Length_call_eval:
  "py_len val = Inr n \<Longrightarrow> length_messages (Length_init ex mn mx err em) key = Some t \<Longrightarrow>
   Length_fail fmt (Length_init ex mn mx err em) key [(''data'', val), (''length'', VInt n)] =
     Inl (ValidationError (Msg (fmt t
       [(''exact'', opt_val ex), (''min'', opt_val mn), (''max'', opt_val mx),
        (''data'', val), (''length'', VInt n)])))"
  by (simp add: Length_fail_def fail_def Length_init_fields)

text \<open>
  C4. A \<open>Length\<close> validator on a value that has a length \<open>n\<close>: constructed with
  \<open>exact = k\<close> it succeeds exactly when \<open>n = k\<close>, whatever \<open>min\<close> and \<open>max\<close> are, and
  otherwise raises the error of the key \<open>exact\<close>; without \<open>exact\<close> it applies the
  two-sided and one-sided checks of \<open>Range\<close> to \<open>n\<close>, with the keys \<open>range\<close>, \<open>min\<close>
  and \<open>max\<close>.
\<close>

theorem Length_call_exact:
  assumes "py_len val = Inr n"
  shows
  "(\<exists>t. length_messages (Length_init (Some k) mn mx err em) ''exact'' = Some t \<and>
      Length_call fmt (Length_init (Some k) mn mx err em) val ctx =
        (if n = k then Inr ()
         else Inl (ValidationError (Msg (fmt t
                [(''exact'', VInt k), (''min'', opt_val mn), (''max'', opt_val mx),
                 (''data'', val), (''length'', VInt n)]))))) \<and>
   (\<exists>t. length_messages (Length_init None (Some lo) (Some hi) err em) ''range'' = Some t \<and>
      Length_call fmt (Length_init None (Some lo) (Some hi) err em) val ctx =
        (if lo \<le> n \<and> n \<le> hi then Inr ()
         else Inl (ValidationError (Msg (fmt t
                [(''exact'', VNone), (''min'', VInt lo), (''max'', VInt hi),
                 (''data'', val), (''length'', VInt n)]))))) \<and>
   (\<exists>t. length_messages (Length_init None (Some lo) None err em) ''min'' = Some t \<and>
      Length_call fmt (Length_init None (Some lo) None err em) val ctx =
        (if n < lo
         then Inl (ValidationError (Msg (fmt t
                [(''exact'', VNone), (''min'', VInt lo), (''max'', VNone),
                 (''data'', val), (''length'', VInt n)])))
         else Inr ())) \<and>
   (\<exists>t. length_messages (Length_init None None (Some hi) err em) ''max'' = Some t \<and>
      Length_call fmt (Length_init None None (Some hi) err em) val ctx =
        (if n > hi
         then Inl (ValidationError (Msg (fmt t
                [(''exact'', VNone), (''min'', VNone), (''max'', VInt hi),
                 (''data'', val), (''length'', VInt n)])))
         else Inr ())) \<and>
   Length_call fmt (Length_init None None None err em) val ctx = Inr ()"
proof -
  have ex: "\<exists>t. length_messages (Length_init ex mn mx err em) key = Some t"
    if "key \<in> {''exact'', ''min'', ''max'', ''range''}" for ex mn mx key
    using Length_init_template[OF that, of ex mn mx err em] by blast
  have c1: "\<exists>t. length_messages (Length_init (Some k) mn mx err em) ''exact'' = Some t \<and>
      Length_call fmt (Length_init (Some k) mn mx err em) val ctx =
        (if n = k then Inr ()
         else Inl (ValidationError (Msg (fmt t
                [(''exact'', VInt k), (''min'', opt_val mn), (''max'', opt_val mx),
                 (''data'', val), (''length'', VInt n)]))))"
  proof -
    obtain t where t: "length_messages (Length_init (Some k) mn mx err em) ''exact'' = Some t"
      using ex[of "''exact''" "Some k" mn mx] by auto
    show ?thesis
      using t assms Length_call_eval[OF assms t, of fmt]
      by (simp add: Length_call_def Length_init_fields)
  qed
  have c2: "\<exists>t. length_messages (Length_init None (Some lo) (Some hi) err em) ''range'' = Some t \<and>
      Length_call fmt (Length_init None (Some lo) (Some hi) err em) val ctx =
        (if lo \<le> n \<and> n \<le> hi then Inr ()
         else Inl (ValidationError (Msg (fmt t
                [(''exact'', VNone), (''min'', VInt lo), (''max'', VInt hi),
                 (''data'', val), (''length'', VInt n)]))))"
  proof -
    obtain t where t: "length_messages (Length_init None (Some lo) (Some hi) err em) ''range'' = Some t"
      using ex[of "''range''" None "Some lo" "Some hi"] by auto
    show ?thesis
      using t assms Length_call_eval[OF assms t, of fmt]
      by (auto simp add: Length_call_def Length_init_fields)
  qed
  have c3: "\<exists>t. length_messages (Length_init None (Some lo) None err em) ''min'' = Some t \<and>
      Length_call fmt (Length_init None (Some lo) None err em) val ctx =
        (if n < lo
         then Inl (ValidationError (Msg (fmt t
                [(''exact'', VNone), (''min'', VInt lo), (''max'', VNone),
                 (''data'', val), (''length'', VInt n)])))
         else Inr ())"
  proof -
    obtain t where t: "length_messages (Length_init None (Some lo) None err em) ''min'' = Some t"
      using ex[of "''min''" None "Some lo" None] by auto
    show ?thesis
      using t assms Length_call_eval[OF assms t, of fmt]
      by (auto simp add: Length_call_def Length_init_fields)
  qed
  have c4: "\<exists>t. length_messages (Length_init None None (Some hi) err em) ''max'' = Some t \<and>
      Length_call fmt (Length_init None None (Some hi) err em) val ctx =
        (if n > hi
         then Inl (ValidationError (Msg (fmt t
                [(''exact'', VNone), (''min'', VNone), (''max'', VInt hi),
                 (''data'', val), (''length'', VInt n)])))
         else Inr ())"
  proof -
    obtain t where t: "length_messages (Length_init None None (Some hi) err em) ''max'' = Some t"
      using ex[of "''max''" None None "Some hi"] by auto
    show ?thesis
      using t assms Length_call_eval[OF assms t, of fmt]
      by (auto simp add: Length_call_def Length_init_fields)
  qed
  have c5: "Length_call fmt (Length_init None None None err em) val ctx = Inr ()"
    using assms by (simp add: Length_call_def Length_init_fields)
  from c1 c2 c3 c4 c5 show ?thesis by blast
qed

theorem Length_call_exact_witness:
  "py_len (VStr ''abc'') = Inr 3 \<and>
   Length_call (\<lambda>t kw. t) (Length_init (Some 3) (Some 5) (Some 9) None Map.empty)
     (VStr ''abc'') VNone = Inr () \<and>
   Length_call (\<lambda>t kw. t) (Length_init (Some 2) (Some 1) (Some 9) None Map.empty)
     (VStr ''abc'') VNone = Inl (ValidationError (Msg ''Length should be {exact}'')) \<and>
   Length_call (\<lambda>t kw. t) (Length_init None (Some 4) (Some 9) None Map.empty)
     (VStr ''abc'') VNone =
     Inl (ValidationError (Msg ''Length should be at least {min} and at most {max}''))"
proof -
  have len: "py_len (VStr ''abc'') = Inr 3" by simp
  have tmpl: "length_messages (Length_init ex mn mx None Map.empty) =
    Length_default_error_messages" for ex mn mx
    by (simp add: Length_init_def ErrorMessagesMixin_init_def)
  show ?thesis
    using len
      Length_call_exact[OF len, of 3 "Some 5" "Some 9" None Map.empty "\<lambda>t kw. t" VNone 4 9]
      Length_call_exact[OF len, of 2 "Some 1" "Some 9" None Map.empty "\<lambda>t kw. t" VNone 4 9]
    by (simp add: tmpl Length_default_error_messages_def)
qed

subsection \<open>Unique\<close>

lemma py_iter_is_sequence: "py_iter val = Inr items \<Longrightarrow> is_sequence val"
  by (cases val) auto

lemma Unique_init_template:
  "unique_key (Unique_init key err em) = key"
  "\<exists>t. unique_messages (Unique_init key err em) ''invalid'' = Some t"
  "\<exists>t. unique_messages (Unique_init key err em) ''unique'' = Some t \<and>
       (case err of Some e \<Rightarrow> t = e | None \<Rightarrow> True)"
  by (auto simp: Unique_init_def Let_def ErrorMessagesMixin_init_def
      Unique_default_error_messages_def map_add_def split: option.splits)

lemma Unique_loop_distinct:
  "map (unique_key u) items = map Inr ks \<Longrightarrow> list_all hashable ks \<Longrightarrow> distinct ks \<Longrightarrow>
   set ks \<inter> seen = {} \<Longrightarrow> Unique_loop fmt u seen items = Inr ()"
proof (induction items arbitrary: ks seen)
  case Nil
  then show ?case by simp
next
  case (Cons item items)
  then obtain k ks' where ks: "ks = k # ks'" "unique_key u item = Inr k"
    "map (unique_key u) items = map Inr ks'"
    by (cases ks) auto
  have "Unique_loop fmt u (insert k seen) items = Inr ()"
    using Cons.IH[OF ks(3), of "insert k seen"] Cons.prems ks(1) by auto
  then show ?case
    using Cons.prems ks by auto
qed

lemma Unique_loop_duplicate:
  "map (unique_key u) xs = map Inr ks \<Longrightarrow> list_all hashable ks \<Longrightarrow> distinct ks \<Longrightarrow>
   set ks \<inter> seen = {} \<Longrightarrow> unique_key u x = Inr k \<Longrightarrow> hashable k \<Longrightarrow>
   k \<in> set ks \<union> seen \<Longrightarrow>
   Unique_loop fmt u seen (xs @ x # ys) =
     fail fmt (unique_messages u) ''unique'' [(''data'', x), (''key'', k)]"
proof (induction xs arbitrary: ks seen)
  case Nil
  then show ?case by simp
next
  case (Cons item items)
  then obtain k' ks' where ks: "ks = k' # ks'" "unique_key u item = Inr k'"
    "map (unique_key u) items = map Inr ks'"
    by (cases ks) auto
  have "Unique_loop fmt u (insert k' seen) (items @ x # ys) =
     fail fmt (unique_messages u) ''unique'' [(''data'', x), (''key'', k)]"
    using Cons.IH[OF ks(3), of "insert k' seen"] Cons.prems ks(1) by auto
  then show ?case
    using Cons.prems ks by auto
qed

lemma Unique_loop_unhashable:
  "map (unique_key u) xs = map Inr ks \<Longrightarrow> list_all hashable ks \<Longrightarrow> distinct ks \<Longrightarrow>
   set ks \<inter> seen = {} \<Longrightarrow> unique_key u x = Inr k \<Longrightarrow> \<not> hashable k \<Longrightarrow>
   Unique_loop fmt u seen (xs @ x # ys) = Inl TypeError"
proof (induction xs arbitrary: ks seen)
  case Nil
  then show ?case by simp
next
  case (Cons item items)
  then obtain k' ks' where ks: "ks = k' # ks'" "unique_key u item = Inr k'"
    "map (unique_key u) items = map Inr ks'"
    by (cases ks) auto
  have "Unique_loop fmt u (insert k' seen) (items @ x # ys) = Inl TypeError"
    using Cons.IH[OF ks(3), of "insert k' seen"] Cons.prems ks(1) by auto
  then show ?case
    using Cons.prems ks by auto
qed

text \<open>
  C5, with hashable keys. A \<open>Unique\<close> validator fails with the key \<open>invalid\<close> on a value that
  is not a sequence. On a sequence it visits the items in order, computes the key of
  each and looks it up in the set of the keys seen so far, which needs a hashable key.
  When all the keys are hashable and distinct it succeeds. At the first item whose
  key was seen before it raises the error of the key \<open>unique\<close>, with that item and its
  key as the substitutions, whatever the items after it are. At the first item whose
  key is unhashable it raises a \<open>TypeError\<close>.
\<close>

theorem Unique_call_first_duplicate:
  "(\<exists>t. unique_messages (Unique_init key err em) ''invalid'' = Some t \<and>
      (\<not> is_sequence val \<longrightarrow>
         Unique_call fmt (Unique_init key err em) val ctx =
           Inl (ValidationError (Msg (fmt t []))))) \<and>
   (py_iter val = Inr items \<and> map key items = map Inr ks \<and> list_all hashable ks \<and>
      distinct ks \<longrightarrow>
      Unique_call fmt (Unique_init key err em) val ctx = Inr ()) \<and>
   (\<exists>t. unique_messages (Unique_init key err em) ''unique'' = Some t \<and>
      (py_iter val = Inr (xs @ x # ys) \<and> map key xs = map Inr ks \<and> list_all hashable ks \<and>
       distinct ks \<and> key x = Inr k \<and> k \<in> set ks \<longrightarrow>
       Unique_call fmt (Unique_init key err em) val ctx =
         Inl (ValidationError (Msg (fmt t [(''data'', x), (''key'', k)]))))) \<and>
   (py_iter val = Inr (xs @ x # ys) \<and> map key xs = map Inr ks \<and> list_all hashable ks \<and>
      distinct ks \<and> key x = Inr k \<and> \<not> hashable k \<longrightarrow>
      Unique_call fmt (Unique_init key err em) val ctx = Inl TypeError)"
proof (intro conjI)
  obtain t where t: "unique_messages (Unique_init key err em) ''invalid'' = Some t"
    using Unique_init_template(2) by blast
  show "\<exists>t. unique_messages (Unique_init key err em) ''invalid'' = Some t \<and>
      (\<not> is_sequence val \<longrightarrow>
         Unique_call fmt (Unique_init key err em) val ctx =
           Inl (ValidationError (Msg (fmt t []))))"
    using t by (simp add: Unique_call_def fail_def)
next
  show "py_iter val = Inr items \<and> map key items = map Inr ks \<and> list_all hashable ks \<and>
      distinct ks \<longrightarrow>
      Unique_call fmt (Unique_init key err em) val ctx = Inr ()"
  proof
    assume a: "py_iter val = Inr items \<and> map key items = map Inr ks \<and> list_all hashable ks \<and>
      distinct ks"
    then have "Unique_loop fmt (Unique_init key err em) {} items = Inr ()"
      using Unique_loop_distinct[of "Unique_init key err em" items ks "{}" fmt]
      by (simp add: Unique_init_template(1))
    then show "Unique_call fmt (Unique_init key err em) val ctx = Inr ()"
      using a py_iter_is_sequence[of val items] by (simp add: Unique_call_def)
  qed
next
  obtain t where t: "unique_messages (Unique_init key err em) ''unique'' = Some t"
    using Unique_init_template(3) by blast
  have "Unique_call fmt (Unique_init key err em) val ctx =
         Inl (ValidationError (Msg (fmt t [(''data'', x), (''key'', k)])))"
    if a: "py_iter val = Inr (xs @ x # ys) \<and> map key xs = map Inr ks \<and> list_all hashable ks \<and>
       distinct ks \<and> key x = Inr k \<and> k \<in> set ks"
  proof -
    have hk: "hashable k"
      using a by (auto simp: list_all_iff)
    have "Unique_loop fmt (Unique_init key err em) {} (xs @ x # ys) =
        fail fmt (unique_messages (Unique_init key err em)) ''unique''
          [(''data'', x), (''key'', k)]"
      using a hk Unique_loop_duplicate[of "Unique_init key err em" xs ks "{}" x k fmt ys]
      by (simp add: Unique_init_template(1))
    then show ?thesis
      using a t py_iter_is_sequence[of val "xs @ x # ys"]
      by (simp add: Unique_call_def fail_def)
  qed
  then show "\<exists>t. unique_messages (Unique_init key err em) ''unique'' = Some t \<and>
      (py_iter val = Inr (xs @ x # ys) \<and> map key xs = map Inr ks \<and> list_all hashable ks \<and>
       distinct ks \<and> key x = Inr k \<and> k \<in> set ks \<longrightarrow>
       Unique_call fmt (Unique_init key err em) val ctx =
         Inl (ValidationError (Msg (fmt t [(''data'', x), (''key'', k)]))))"
    using t by blast
next
  show "py_iter val = Inr (xs @ x # ys) \<and> map key xs = map Inr ks \<and> list_all hashable ks \<and>
      distinct ks \<and> key x = Inr k \<and> \<not> hashable k \<longrightarrow>
      Unique_call fmt (Unique_init key err em) val ctx = Inl TypeError"
  proof
    assume a: "py_iter val = Inr (xs @ x # ys) \<and> map key xs = map Inr ks \<and>
      list_all hashable ks \<and> distinct ks \<and> key x = Inr k \<and> \<not> hashable k"
    then have "Unique_loop fmt (Unique_init key err em) {} (xs @ x # ys) = Inl TypeError"
      using Unique_loop_unhashable[of "Unique_init key err em" xs ks "{}" x k fmt ys]
      by (simp add: Unique_init_template(1))
    then show "Unique_call fmt (Unique_init key err em) val ctx = Inl TypeError"
      using a py_iter_is_sequence[of val "xs @ x # ys"] by (simp add: Unique_call_def)
  qed
qed

text \<open>
  C5 without the restriction to hashable keys does not hold: on a list of two distinct
  lists the keys are distinct, and the validation does not succeed, for a list is
  unhashable.
\<close>

theorem Unique_call_unhashable_counterexample:
  "is_sequence (VList [VList [VInt 1], VList [VInt 2]]) \<and>
   distinct [VList [VInt 1], VList [VInt 2]] \<and>
   Unique_call (\<lambda>t kw. t) (Unique_init (\<lambda>v. Inr (identity v)) None Map.empty)
     (VList [VList [VInt 1], VList [VInt 2]]) VNone = Inl TypeError"
  by (simp add: Unique_call_def Unique_init_def identity_def)

theorem Unique_call_first_duplicate_witness:
  "Unique_call (\<lambda>t kw. t) (Unique_init (\<lambda>v. Inr (identity v)) None Map.empty)
     (VInt 5) VNone = Inl (ValidationError (Msg ''Value should be collection'')) \<and>
   Unique_call (\<lambda>t kw. t) (Unique_init (\<lambda>v. Inr (identity v)) None Map.empty)
     (VList [VInt 1, VInt 2, VInt 3]) VNone = Inr () \<and>
   Unique_call (\<lambda>t kw. if kw = [(''data'', VInt 2), (''key'', VInt 2)] then t else [])
     (Unique_init (\<lambda>v. Inr (identity v)) None Map.empty)
     (VList [VInt 1, VInt 2, VInt 2, VInt 3]) VNone =
     Inl (ValidationError (Msg ''Values are not unique'')) \<and>
   Unique_call
     (\<lambda>t kw. if kw = [(''data'', VStr ''de''), (''key'', VInt 2)] then t else [])
     (Unique_init (\<lambda>v. raising (py_len v) (\<lambda>n. Inr (VInt n))) (Some ''same length'') Map.empty)
     (VList [VStr ''ab'', VStr ''c'', VStr ''de'', VStr ''f'']) VNone =
     Inl (ValidationError (Msg ''same length''))"
proof -
  let ?u = "Unique_init (\<lambda>v. Inr (identity v)) None Map.empty"
  have msgs: "unique_messages (Unique_init key None Map.empty) = Unique_default_error_messages"
    for key
    by (simp add: Unique_init_def ErrorMessagesMixin_init_def)
  have p1: "Unique_call (\<lambda>t kw. t) ?u (VInt 5) VNone =
      Inl (ValidationError (Msg ''Value should be collection''))"
    using Unique_call_first_duplicate[of "\<lambda>v. Inr (identity v)" None Map.empty "VInt 5"
        "\<lambda>t kw. t" VNone "[]" "[]" "[]" VNone "[]" VNone]
    by (simp add: msgs Unique_default_error_messages_def)
  have p2: "Unique_call (\<lambda>t kw. t) ?u (VList [VInt 1, VInt 2, VInt 3]) VNone = Inr ()"
    using Unique_call_first_duplicate[of "\<lambda>v. Inr (identity v)" None Map.empty
        "VList [VInt 1, VInt 2, VInt 3]" "\<lambda>t kw. t" VNone
        "[VInt 1, VInt 2, VInt 3]" "[VInt 1, VInt 2, VInt 3]" "[]" VNone "[]" VNone]
    by (simp add: identity_def)
  have p3: "Unique_call (\<lambda>t kw. if kw = [(''data'', VInt 2), (''key'', VInt 2)] then t else [])
      ?u (VList [VInt 1, VInt 2, VInt 2, VInt 3]) VNone =
      Inl (ValidationError (Msg ''Values are not unique''))"
    using Unique_call_first_duplicate[of "\<lambda>v. Inr (identity v)" None Map.empty
        "VList [VInt 1, VInt 2, VInt 2, VInt 3]"
        "\<lambda>t kw. if kw = [(''data'', VInt 2), (''key'', VInt 2)] then t else []" VNone
        "[]" "[VInt 1, VInt 2]" "[VInt 1, VInt 2]" "VInt 2" "[VInt 3]" "VInt 2"]
    by (simp add: identity_def msgs Unique_default_error_messages_def)
  have p4: "Unique_call
      (\<lambda>t kw. if kw = [(''data'', VStr ''de''), (''key'', VInt 2)] then t else [])
      (Unique_init (\<lambda>v. raising (py_len v) (\<lambda>n. Inr (VInt n))) (Some ''same length'') Map.empty)
      (VList [VStr ''ab'', VStr ''c'', VStr ''de'', VStr ''f'']) VNone =
      Inl (ValidationError (Msg ''same length''))"
    using Unique_call_first_duplicate[of "\<lambda>v. raising (py_len v) (\<lambda>n. Inr (VInt n))"
        "Some ''same length''" Map.empty
        "VList [VStr ''ab'', VStr ''c'', VStr ''de'', VStr ''f'']"
        "\<lambda>t kw. if kw = [(''data'', VStr ''de''), (''key'', VInt 2)] then t else []" VNone
        "[]" "[VInt 2, VInt 1]" "[VStr ''ab'', VStr ''c'']" "VStr ''de''" "[VStr ''f'']" "VInt 2"]
    by (simp add: Unique_init_def)
  from p1 p2 p3 p4 show ?thesis by blast
qed

subsection \<open>The error override\<close>

lemma Range_init_override:
  "k \<in> {''min'', ''max'', ''range''} \<Longrightarrow>
   range_messages (Range_init mn mx (Some e) em) k = Some e"
  by (auto simp: Range_init_def Let_def set_all_apply)

lemma Length_init_override:
  "k \<in> {''exact'', ''min'', ''max'', ''range''} \<Longrightarrow>
   length_messages (Length_init ex mn mx (Some e) em) k = Some e"
  by (auto simp: Length_init_def Let_def set_all_apply)

lemma Range_call_override:
  "Range_call fmt (Range_init mn mx (Some e) em) val ctx = Inl (ValidationError m) \<Longrightarrow>
   \<exists>kw. m = Msg (fmt e kw)"
  by (cases mn; cases mx; cases val)
     (auto simp: Range_call_def Range_fail_def fail_def Range_init_fields Range_init_override
           split: if_splits)

lemma Length_call_override:
  "Length_call fmt (Length_init ex mn mx (Some e) em) val ctx = Inl (ValidationError m) \<Longrightarrow>
   \<exists>kw. m = Msg (fmt e kw)"
  by (cases ex; cases mn; cases mx; cases val)
     (auto simp: Length_call_def Length_fail_def fail_def Length_init_fields Length_init_override
           split: if_splits)

lemma Unique_init_override:
  "unique_messages (Unique_init key (Some e) em) ''unique'' = Some e"
  "unique_messages (Unique_init key (Some e) em) ''invalid'' =
     Some (case em ''invalid'' of Some t \<Rightarrow> t | None \<Rightarrow> ''Value should be collection'')"
  by (auto simp: Unique_init_def Let_def ErrorMessagesMixin_init_def
      Unique_default_error_messages_def map_add_def split: option.splits)

text \<open>
  C7, for each validator with several keys. With an \<open>error\<close> override, \<open>Range\<close> and \<open>Length\<close> store the override
  under every one of their keys, and every \<open>ValidationError\<close> they raise is formatted
  from the override. \<open>Unique\<close> stores the override under the key \<open>unique\<close> only: the
  failure at a repeated key is formatted from the override, while the key \<open>invalid\<close>
  keeps the template it had, and the failure on a value that is not a sequence is
  formatted from that template.
\<close>

theorem error_override_routing:
  "range_messages (Range_init mn mx (Some e) em) ''min'' = Some e \<and>
   range_messages (Range_init mn mx (Some e) em) ''max'' = Some e \<and>
   range_messages (Range_init mn mx (Some e) em) ''range'' = Some e \<and>
   (Range_call fmt (Range_init mn mx (Some e) em) val ctx = Inl (ValidationError m) \<longrightarrow>
      (\<exists>kw. m = Msg (fmt e kw))) \<and>
   length_messages (Length_init ex mn mx (Some e) em) ''exact'' = Some e \<and>
   length_messages (Length_init ex mn mx (Some e) em) ''min'' = Some e \<and>
   length_messages (Length_init ex mn mx (Some e) em) ''max'' = Some e \<and>
   length_messages (Length_init ex mn mx (Some e) em) ''range'' = Some e \<and>
   (Length_call fmt (Length_init ex mn mx (Some e) em) val ctx = Inl (ValidationError m) \<longrightarrow>
      (\<exists>kw. m = Msg (fmt e kw))) \<and>
   unique_messages (Unique_init key (Some e) em) ''unique'' = Some e \<and>
   unique_messages (Unique_init key (Some e) em) ''invalid'' =
     Some (case em ''invalid'' of Some t \<Rightarrow> t | None \<Rightarrow> ''Value should be collection'') \<and>
   (py_iter val = Inr (xs @ x # ys) \<and> map key xs = map Inr ks \<and> list_all hashable ks \<and>
      distinct ks \<and> key x = Inr k \<and> k \<in> set ks \<longrightarrow>
      Unique_call fmt (Unique_init key (Some e) em) val ctx =
        Inl (ValidationError (Msg (fmt e [(''data'', x), (''key'', k)])))) \<and>
   (\<not> is_sequence val \<longrightarrow>
      Unique_call fmt (Unique_init key (Some e) em) val ctx =
        Inl (ValidationError (Msg (fmt
          (case em ''invalid'' of Some t \<Rightarrow> t | None \<Rightarrow> ''Value should be collection'') []))))"
proof -
  have dup: "Unique_call fmt (Unique_init key (Some e) em) val ctx =
        Inl (ValidationError (Msg (fmt e [(''data'', x), (''key'', k)])))"
    if a: "py_iter val = Inr (xs @ x # ys) \<and> map key xs = map Inr ks \<and> list_all hashable ks \<and>
      distinct ks \<and> key x = Inr k \<and> k \<in> set ks"
  proof -
    have hk: "hashable k"
      using a by (auto simp: list_all_iff)
    have "Unique_loop fmt (Unique_init key (Some e) em) {} (xs @ x # ys) =
        fail fmt (unique_messages (Unique_init key (Some e) em)) ''unique''
          [(''data'', x), (''key'', k)]"
      using a hk Unique_loop_duplicate[of "Unique_init key (Some e) em" xs ks "{}" x k fmt ys]
      by (simp add: Unique_init_template(1))
    then show ?thesis
      using a py_iter_is_sequence[of val "xs @ x # ys"]
      by (simp add: Unique_call_def fail_def Unique_init_override(1))
  qed
  have inv: "Unique_call fmt (Unique_init key (Some e) em) val ctx =
        Inl (ValidationError (Msg (fmt
          (case em ''invalid'' of Some t \<Rightarrow> t | None \<Rightarrow> ''Value should be collection'') [])))"
    if "\<not> is_sequence val"
    using that by (simp add: Unique_call_def fail_def Unique_init_override(2))
  show ?thesis
    using dup inv Range_call_override[of fmt mn mx e em val ctx m]
      Length_call_override[of fmt ex mn mx e em val ctx m]
    by (simp add: Range_init_override Length_init_override Unique_init_override)
qed

theorem error_override_routing_witness:
  "Range_call (\<lambda>t kw. t) (Range_init (Some 1) (Some 5) (Some ''bad'') Map.empty) (VInt 9) VNone =
     Inl (ValidationError (Msg ''bad'')) \<and>
   Length_call (\<lambda>t kw. t) (Length_init None (Some 2) None (Some ''bad'') Map.empty)
     (VStr ''a'') VNone = Inl (ValidationError (Msg ''bad'')) \<and>
   Unique_call (\<lambda>t kw. t) (Unique_init (\<lambda>v. Inr (identity v)) (Some ''bad'') Map.empty)
     (VList [VInt 7, VInt 7]) VNone = Inl (ValidationError (Msg ''bad'')) \<and>
   Unique_call (\<lambda>t kw. t) (Unique_init (\<lambda>v. Inr (identity v)) (Some ''bad'') Map.empty)
     VNone VNone = Inl (ValidationError (Msg ''Value should be collection''))"
proof -
  have rc: "\<exists>m. Range_call (\<lambda>t kw. t) (Range_init (Some 1) (Some 5) (Some ''bad'') Map.empty)
      (VInt 9) VNone = Inl (ValidationError m)"
    by (simp add: Range_call_def Range_fail_def fail_def Range_init_fields Range_init_override)
  have lc: "\<exists>m. Length_call (\<lambda>t kw. t) (Length_init None (Some 2) None (Some ''bad'') Map.empty)
      (VStr ''a'') VNone = Inl (ValidationError m)"
    by (simp add: Length_call_def Length_fail_def fail_def Length_init_fields Length_init_override)
  from rc obtain m1 where m1: "Range_call (\<lambda>t kw. t)
      (Range_init (Some 1) (Some 5) (Some ''bad'') Map.empty) (VInt 9) VNone =
      Inl (ValidationError m1)" by blast
  from lc obtain m2 where m2: "Length_call (\<lambda>t kw. t)
      (Length_init None (Some 2) None (Some ''bad'') Map.empty) (VStr ''a'') VNone =
      Inl (ValidationError m2)" by blast
  have p1: "m1 = Msg ''bad''"
    using m1 error_override_routing[where mn="Some 1" and mx="Some 5" and e="''bad''"
        and em=Map.empty and fmt="\<lambda>t kw. t" and val="VInt 9" and ctx=VNone and m=m1]
    by simp
  have p2: "m2 = Msg ''bad''"
    using m2 error_override_routing[where ex=None and mn="Some 2" and mx=None and e="''bad''"
        and em=Map.empty and fmt="\<lambda>t kw. t" and val="VStr ''a''" and ctx=VNone and m=m2]
    by simp
  have p3: "Unique_call (\<lambda>t kw. t) (Unique_init (\<lambda>v. Inr (identity v)) (Some ''bad'') Map.empty)
     (VList [VInt 7, VInt 7]) VNone = Inl (ValidationError (Msg ''bad''))"
    using error_override_routing[where e="''bad''" and em=Map.empty and fmt="\<lambda>t kw. t"
        and val="VList [VInt 7, VInt 7]" and ctx=VNone and key="\<lambda>v. Inr (identity v)"
        and xs="[VInt 7]" and x="VInt 7" and ys="[]" and ks="[VInt 7]" and k="VInt 7"]
    by (simp add: identity_def)
  have p4: "Unique_call (\<lambda>t kw. t) (Unique_init (\<lambda>v. Inr (identity v)) (Some ''bad'') Map.empty)
     VNone VNone = Inl (ValidationError (Msg ''Value should be collection''))"
    using error_override_routing[where e="''bad''" and em=Map.empty and fmt="\<lambda>t kw. t"
        and val=VNone and ctx=VNone and key="\<lambda>v. Inr (identity v)"]
    by simp
  from m1 m2 p1 p2 p3 p4 show ?thesis by simp
qed

text \<open>
  C7 for every validator with several keys does not hold: the table of \<open>Unique\<close> has
  two keys, and with the override
  \<open>dup\<close> the template of \<open>invalid\<close> is still the default one, and the failure on a value
  that is not a sequence carries the default message.
\<close>

theorem Unique_override_counterexample:
  "dom Unique_default_error_messages = {''invalid'', ''unique''} \<and>
   unique_messages (Unique_init (\<lambda>v. Inr (identity v)) (Some ''dup'') Map.empty) ''invalid'' =
     Some ''Value should be collection'' \<and>
   Unique_call (\<lambda>t kw. t) (Unique_init (\<lambda>v. Inr (identity v)) (Some ''dup'') Map.empty)
     (VInt 5) VNone = Inl (ValidationError (Msg ''Value should be collection''))"
  by (auto simp: Unique_call_def Unique_init_def fail_def ErrorMessagesMixin_init_def
      Unique_default_error_messages_def)

subsection \<open>Regexp\<close>

lemma Regexp_init_result:
  "(case re of Inl src \<Rightarrow> compile src flags | Inr p' \<Rightarrow> Inr p') = Inr p \<Longrightarrow>
   \<exists>r t. Regexp_init compile re flags err em = Inr r \<and> regexp r = p \<and>
         regexp_messages r ''invalid'' = Some t"
  by (auto simp: Regexp_init_def Let_def ErrorMessagesMixin_init_def
      Regexp_default_error_messages_def map_add_def split: option.splits)

lemma digits_examples:
  "matches \<lparr>pattern = ''^[0-9]+$'',
     syntax_tree = Seq Bol (Seq (Plus (CharClass ''0123456789'')) Eol)\<rparr> ''123''"
  "\<not> matches \<lparr>pattern = ''^[0-9]+$'',
     syntax_tree = Seq Bol (Seq (Plus (CharClass ''0123456789'')) Eol)\<rparr> ''12a''"
  "\<not> matches \<lparr>pattern = ''^[0-9]+$'',
     syntax_tree = Seq Bol (Seq (Plus (CharClass ''0123456789'')) Eol)\<rparr> ''''"
  "matches \<lparr>pattern = ''[0-9]+'', syntax_tree = Plus (CharClass ''0123456789'')\<rparr> ''12a''"
  "\<not> matches \<lparr>pattern = ''[0-9]+'', syntax_tree = Plus (CharClass ''0123456789'')\<rparr> ''a12''"
  by (simp_all add: matches_def eval_nat_numeral)

text \<open>
  C9. A \<open>Regexp\<close> validator on a string raises the error of the key \<open>invalid\<close>
  exactly when the compiled pattern has no match that starts at position 0 of the
  string; the match need not reach the end of the string. The pattern \<open>^[0-9]+$\<close>
  accepts \<open>123\<close> and rejects \<open>12a\<close> and the empty string; the pattern \<open>[0-9]+\<close> accepts
  \<open>12a\<close> (a match of a prefix) and rejects \<open>a12\<close> (no match at position 0).
\<close>

theorem Regexp_call_match_at_start:
  "((case re of Inl src \<Rightarrow> compile src flags | Inr p' \<Rightarrow> Inr p') = Inr p \<longrightarrow>
     (\<exists>r t. Regexp_init compile re flags err em = Inr r \<and> regexp r = p \<and>
        regexp_messages r ''invalid'' = Some t \<and>
        Regexp_call fmt r (VStr s) ctx =
          (if matches p s then Inr ()
           else Inl (ValidationError (Msg (fmt t
                  [(''data'', VStr s), (''regexp'', VStr (pattern p))])))))) \<and>
   matches \<lparr>pattern = ''^[0-9]+$'',
     syntax_tree = Seq Bol (Seq (Plus (CharClass ''0123456789'')) Eol)\<rparr> ''123'' \<and>
   \<not> matches \<lparr>pattern = ''^[0-9]+$'',
     syntax_tree = Seq Bol (Seq (Plus (CharClass ''0123456789'')) Eol)\<rparr> ''12a'' \<and>
   \<not> matches \<lparr>pattern = ''^[0-9]+$'',
     syntax_tree = Seq Bol (Seq (Plus (CharClass ''0123456789'')) Eol)\<rparr> '''' \<and>
   matches \<lparr>pattern = ''[0-9]+'', syntax_tree = Plus (CharClass ''0123456789'')\<rparr> ''12a'' \<and>
   \<not> matches \<lparr>pattern = ''[0-9]+'', syntax_tree = Plus (CharClass ''0123456789'')\<rparr> ''a12''"
proof -
  have gen: "\<exists>r t. Regexp_init compile re flags err em = Inr r \<and> regexp r = p \<and>
        regexp_messages r ''invalid'' = Some t \<and>
        Regexp_call fmt r (VStr s) ctx =
          (if matches p s then Inr ()
           else Inl (ValidationError (Msg (fmt t
                  [(''data'', VStr s), (''regexp'', VStr (pattern p))]))))"
    if a: "(case re of Inl src \<Rightarrow> compile src flags | Inr p' \<Rightarrow> Inr p') = Inr p"
  proof -
    obtain r t where r: "Regexp_init compile re flags err em = Inr r" "regexp r = p"
      "regexp_messages r ''invalid'' = Some t"
      using a Regexp_init_result[where re=re and compile=compile and flags=flags and p=p
          and err=err and em=em] by blast
    have "Regexp_call fmt r (VStr s) ctx =
          (if matches p s then Inr ()
           else Inl (ValidationError (Msg (fmt t
                  [(''data'', VStr s), (''regexp'', VStr (pattern p))]))))"
      using r(2,3) by (simp add: Regexp_call_def fail_def)
    with r show ?thesis by blast
  qed
  show ?thesis
    using gen digits_examples by blast
qed

theorem Regexp_call_match_at_start_witness:
  "(\<exists>r. Regexp_init (\<lambda>src flags. Inl (ValueError src))
          (Inr \<lparr>pattern = ''^[0-9]+$'',
                syntax_tree = Seq Bol (Seq (Plus (CharClass ''0123456789'')) Eol)\<rparr>)
          0 None Map.empty = Inr r \<and>
        Regexp_call (\<lambda>t kw. t) r (VStr ''123'') VNone = Inr () \<and>
        Regexp_call (\<lambda>t kw. t) r (VStr ''12a'') VNone =
          Inl (ValidationError (Msg ''String does not match expected pattern'')) \<and>
        Regexp_call (\<lambda>t kw. t) r (VStr '''') VNone =
          Inl (ValidationError (Msg ''String does not match expected pattern'')))"
proof -
  let ?p = "\<lparr>pattern = ''^[0-9]+$'',
             syntax_tree = Seq Bol (Seq (Plus (CharClass ''0123456789'')) Eol)\<rparr>"
  let ?c = "\<lambda>src flags. Inl (ValueError src) :: error + Pattern"
  let ?r = "\<lparr>regexp = ?p, regexp_messages = Regexp_default_error_messages\<rparr>"
  have init: "Regexp_init ?c (Inr ?p) 0 None Map.empty = Inr ?r"
    by (simp add: Regexp_init_def ErrorMessagesMixin_init_def)
  have t: "regexp_messages ?r ''invalid'' = Some ''String does not match expected pattern''"
    by (simp add: Regexp_default_error_messages_def)
  have inst: "\<exists>t. regexp_messages ?r ''invalid'' = Some t \<and>
      Regexp_call (\<lambda>t kw. t) ?r (VStr s) VNone =
        (if matches ?p s then Inr () else Inl (ValidationError (Msg t)))" for s
    using Regexp_call_match_at_start[where re="Inr ?p" and compile="?c" and flags=0
        and p="?p" and err=None and em=Map.empty and fmt="\<lambda>t kw. t" and s=s
        and ctx=VNone]
    by (simp add: init)
  have call: "Regexp_call (\<lambda>t kw. t) ?r (VStr s) VNone =
        (if matches ?p s then Inr ()
         else Inl (ValidationError (Msg ''String does not match expected pattern'')))" for s
    using inst[of s] t by auto
  have "Regexp_call (\<lambda>t kw. t) ?r (VStr ''123'') VNone = Inr ()"
    using call[of "''123''"] digits_examples(1) by simp
  moreover have "Regexp_call (\<lambda>t kw. t) ?r (VStr ''12a'') VNone =
      Inl (ValidationError (Msg ''String does not match expected pattern''))"
    using call[of "''12a''"] digits_examples(2) by simp
  moreover have "Regexp_call (\<lambda>t kw. t) ?r (VStr []) VNone =
      Inl (ValidationError (Msg ''String does not match expected pattern''))"
    using call[of "[]"] digits_examples(3) by simp
  ultimately show ?thesis
    using init by simp
qed

subsection \<open>Context-aware callables\<close>

lemma make_context_aware_inspected:
  "make_context_aware func numargs =
     Inr (case (case kind func of
                  Method \<Rightarrow> fullargspec func
                | Function \<Rightarrow> fullargspec func
                | Class \<Rightarrow> init_fullargspec func
                | Object \<Rightarrow> call_fullargspec func) of
            Some spec \<Rightarrow>
              if int (length (args spec)) + int (length (kwonlyargs spec)) -
                   (case kind func of Function \<Rightarrow> 0 | _ \<Rightarrow> 1) \<le> numargs
              then Normalized func else Unchanged func
          | None \<Rightarrow> Normalized func)"
  by (cases "kind func")
     (auto simp: make_context_aware_def inspect_arg_count_def get_arg_count_def
           split: option.splits)

text \<open>
  C6. \<open>make_context_aware\<close> inspects the callable itself (a bound method or a
  function), its \<open>__init__\<close> (a class) or its \<open>__call__\<close> (any other callable), and
  discounts the receiver except for a function. It returns the wrapper that drops the
  last argument exactly when the arity found is at most \<open>numargs\<close>, and the callable
  itself exactly when the arity is larger; when the inspection fails it returns the
  wrapper, as for an arity of \<open>numargs\<close>. Hence a predicate of one parameter is called
  with the value alone, and a predicate of two parameters with the value and the
  context.
\<close>

theorem make_context_aware_arity:
  "make_context_aware func numargs =
     Inr (case (case kind func of
                  Method \<Rightarrow> fullargspec func
                | Function \<Rightarrow> fullargspec func
                | Class \<Rightarrow> init_fullargspec func
                | Object \<Rightarrow> call_fullargspec func) of
            Some spec \<Rightarrow>
              if int (length (args spec)) + int (length (kwonlyargs spec)) -
                   (case kind func of Function \<Rightarrow> 0 | _ \<Rightarrow> 1) \<le> numargs
              then Normalized func else Unchanged func
          | None \<Rightarrow> Normalized func) \<and>
   invoke (Normalized func) (arguments @ [ctx]) = body func arguments \<and>
   invoke (Unchanged func) (arguments @ [ctx]) = body func (arguments @ [ctx]) \<and>
   (kind func = Function \<and> fullargspec func = Some \<lparr>args = [a], kwonlyargs = []\<rparr> \<longrightarrow>
      make_context_aware func 1 = Inr (Normalized func) \<and>
      call_with_context func ctx [val] = body func [val]) \<and>
   (kind func = Function \<and> fullargspec func = Some \<lparr>args = [a, b], kwonlyargs = []\<rparr> \<longrightarrow>
      make_context_aware func 1 = Inr (Unchanged func) \<and>
      call_with_context func ctx [val] = body func [val, ctx]) \<and>
   (kind func = Method \<and> fullargspec func = Some \<lparr>args = [self, a], kwonlyargs = []\<rparr> \<longrightarrow>
      make_context_aware func 1 = Inr (Normalized func) \<and>
      call_with_context func ctx [val] = body func [val])"
proof -
  have one: "make_context_aware func 1 = Inr (Normalized func) \<and>
      call_with_context func ctx [val] = body func [val]"
    if "kind func = Function \<and> fullargspec func = Some \<lparr>args = [a], kwonlyargs = []\<rparr>"
    using that by (simp add: call_with_context_def make_context_aware_inspected)
  have two: "make_context_aware func 1 = Inr (Unchanged func) \<and>
      call_with_context func ctx [val] = body func [val, ctx]"
    if "kind func = Function \<and> fullargspec func = Some \<lparr>args = [a, b], kwonlyargs = []\<rparr>"
    using that by (simp add: call_with_context_def make_context_aware_inspected)
  have meth: "make_context_aware func 1 = Inr (Normalized func) \<and>
      call_with_context func ctx [val] = body func [val]"
    if "kind func = Method \<and> fullargspec func = Some \<lparr>args = [self, a], kwonlyargs = []\<rparr>"
    using that by (simp add: call_with_context_def make_context_aware_inspected)
  show ?thesis
    using one two meth make_context_aware_inspected[of func numargs] by simp
qed

theorem make_context_aware_arity_witness:
  "call_with_context
     \<lparr>kind = Function, fullargspec = Some \<lparr>args = [''value''], kwonlyargs = []\<rparr>,
      init_fullargspec = None, call_fullargspec = None,
      body = (\<lambda>xs. case xs of [v] \<Rightarrow> Inr v | _ \<Rightarrow> Inl TypeError)\<rparr>
     (VStr ''ctx'') [VInt 7] = Inr (VInt 7) \<and>
   call_with_context
     \<lparr>kind = Function, fullargspec = Some \<lparr>args = [''value'', ''context''], kwonlyargs = []\<rparr>,
      init_fullargspec = None, call_fullargspec = None,
      body = (\<lambda>xs. case xs of [v, c] \<Rightarrow> Inr (VTuple [v, c]) | _ \<Rightarrow> Inl TypeError)\<rparr>
     (VStr ''ctx'') [VInt 7] = Inr (VTuple [VInt 7, VStr ''ctx'']) \<and>
   call_with_context
     \<lparr>kind = Method, fullargspec = Some \<lparr>args = [''self'', ''value''], kwonlyargs = []\<rparr>,
      init_fullargspec = None, call_fullargspec = None,
      body = (\<lambda>xs. case xs of [v] \<Rightarrow> Inr v | _ \<Rightarrow> Inl TypeError)\<rparr>
     (VStr ''ctx'') [VInt 7] = Inr (VInt 7)"
proof -
  let ?f1 = "\<lparr>kind = Function, fullargspec = Some \<lparr>args = [''value''], kwonlyargs = []\<rparr>,
      init_fullargspec = None, call_fullargspec = None,
      body = (\<lambda>xs. case xs of [v] \<Rightarrow> Inr v | _ \<Rightarrow> Inl TypeError)\<rparr>"
  let ?f2 = "\<lparr>kind = Function,
      fullargspec = Some \<lparr>args = [''value'', ''context''], kwonlyargs = []\<rparr>,
      init_fullargspec = None, call_fullargspec = None,
      body = (\<lambda>xs. case xs of [v, c] \<Rightarrow> Inr (VTuple [v, c]) | _ \<Rightarrow> Inl TypeError)\<rparr>"
  let ?f3 = "\<lparr>kind = Method, fullargspec = Some \<lparr>args = [''self'', ''value''], kwonlyargs = []\<rparr>,
      init_fullargspec = None, call_fullargspec = None,
      body = (\<lambda>xs. case xs of [v] \<Rightarrow> Inr v | _ \<Rightarrow> Inl TypeError)\<rparr>"
  have "call_with_context ?f1 (VStr ''ctx'') [VInt 7] = Inr (VInt 7)"
    using make_context_aware_arity[where func="?f1" and a="''value''"
        and ctx="VStr ''ctx''" and val="VInt 7"]
    by simp
  moreover have "call_with_context ?f2 (VStr ''ctx'') [VInt 7] =
      Inr (VTuple [VInt 7, VStr ''ctx''])"
    using make_context_aware_arity[where func="?f2" and a="''value''" and b="''context''"
        and ctx="VStr ''ctx''" and val="VInt 7"]
    by simp
  moreover have "call_with_context ?f3 (VStr ''ctx'') [VInt 7] = Inr (VInt 7)"
    using make_context_aware_arity[where func="?f3" and self="''self''" and a="''value''"
        and ctx="VStr ''ctx''" and val="VInt 7"]
    by simp
  ultimately show ?thesis by blast
qed

subsection \<open>TypeRegistry\<close>

text \<open>
  C8. \<open>add\<close> under a name that is absent registers the type under that name, leaves
  every other name as it was and returns the type passed in. \<open>add\<close> under a name that
  is registered raises the configuration error and leaves the registry as it was; so
  a second \<open>add\<close> under the same name always raises. No \<open>add\<close> removes or replaces a
  registered type.
\<close>

theorem TypeRegistry_add_once:
  "(name \<notin> dom (types reg) \<longrightarrow>
      fst (TypeRegistry_add reg name a_type) = Inr a_type \<and>
      types (snd (TypeRegistry_add reg name a_type)) = (types reg)(name \<mapsto> a_type)) \<and>
   (name \<in> dom (types reg) \<longrightarrow>
      TypeRegistry_add reg name a_type =
        (Inl (ValueError (''Type with name '' @ [CHR 0x22] @ name @ [CHR 0x22] @
                          '' is already registered'')), reg)) \<and>
   fst (TypeRegistry_add (snd (TypeRegistry_add reg name a_type)) name other) =
     Inl (ValueError (''Type with name '' @ [CHR 0x22] @ name @ [CHR 0x22] @
                      '' is already registered'')) \<and>
   (types reg n = Some t \<longrightarrow> types (snd (TypeRegistry_add reg name a_type)) n = Some t)"
  by (auto simp: TypeRegistry_add_def)

theorem TypeRegistry_add_once_witness:
  "fst (TypeRegistry_add TypeRegistry_init ''Person''
      \<lparr>type_load = (\<lambda>xs. Inr (VStr ''person'')), type_dump = (\<lambda>xs. Inr VNone),
       type_getattr = (\<lambda>n. Inl (AttributeError n))\<rparr>) =
     Inr \<lparr>type_load = (\<lambda>xs. Inr (VStr ''person'')), type_dump = (\<lambda>xs. Inr VNone),
          type_getattr = (\<lambda>n. Inl (AttributeError n))\<rparr> \<and>
   fst (TypeRegistry_add
     (snd (TypeRegistry_add TypeRegistry_init ''Person''
        \<lparr>type_load = (\<lambda>xs. Inr (VStr ''person'')), type_dump = (\<lambda>xs. Inr VNone),
         type_getattr = (\<lambda>n. Inl (AttributeError n))\<rparr>))
     ''Person''
     \<lparr>type_load = (\<lambda>xs. Inr (VStr ''other'')), type_dump = (\<lambda>xs. Inr VNone),
      type_getattr = (\<lambda>n. Inl (AttributeError n))\<rparr>) =
     Inl (ValueError (''Type with name '' @ [CHR 0x22] @ ''Person'' @ [CHR 0x22] @
                      '' is already registered''))"
proof -
  let ?t = "\<lparr>type_load = (\<lambda>xs. Inr (VStr ''person'')), type_dump = (\<lambda>xs. Inr VNone),
       type_getattr = (\<lambda>n. Inl (AttributeError n))\<rparr>"
  let ?o = "\<lparr>type_load = (\<lambda>xs. Inr (VStr ''other'')), type_dump = (\<lambda>xs. Inr VNone),
      type_getattr = (\<lambda>n. Inl (AttributeError n))\<rparr>"
  have absent: "''Person'' \<notin> dom (types TypeRegistry_init)"
    by (simp add: TypeRegistry_init_def)
  show ?thesis
    using absent TypeRegistry_add_once[where reg=TypeRegistry_init and name="''Person''"
        and a_type="?t" and other="?o"]
    by simp
qed

subsection \<open>TypeRef\<close>

lemma inner_type_unresolved_absent:
  "get_type r = (\<lambda>self. TypeRegistry__get self name) \<Longrightarrow> inner_type_cache r = None \<Longrightarrow>
   types reg name = None \<Longrightarrow>
   inner_type reg r =
     (Inl (KeyError (''Type with name '' @ [CHR 0x22] @ name @ [CHR 0x22] @
                     '' is not registered'')),
      r\<lparr>resolver_calls := Suc (resolver_calls r)\<rparr>)"
  by (simp add: inner_type_def TypeRegistry__get_def)

lemma inner_type_unresolved_present:
  "get_type r = (\<lambda>self. TypeRegistry__get self name) \<Longrightarrow> inner_type_cache r = None \<Longrightarrow>
   types reg name = Some t \<Longrightarrow>
   inner_type reg r =
     (Inr t, r\<lparr>inner_type_cache := Some t, resolver_calls := Suc (resolver_calls r)\<rparr>)"
  by (simp add: inner_type_def TypeRegistry__get_def)

lemma inner_type_resolved:
  "inner_type_cache r = Some t \<Longrightarrow> inner_type reg r = (Inr t, r)"
  by (simp add: inner_type_def)

lemma loads_resolved:
  "inner_type_cache r = Some t \<Longrightarrow>
   foldl (\<lambda>r' (reg, xs). snd (TypeRef_load reg r' xs)) r steps = r"
  by (induction steps) (auto simp: TypeRef_load_def inner_type_resolved)

lemma TypeRef_attribute_own:
  "name \<noteq> ''inner_type'' \<Longrightarrow> name \<in> TypeRef_own_attributes \<union> inherited \<Longrightarrow>
   TypeRef_attribute inherited reg r name = (Inr (Own name), r)"
  by (simp add: TypeRef_attribute_def)

lemma TypeRef_attribute_property:
  "TypeRef_attribute inherited reg r ''inner_type'' =
     (case inner_type reg r of (res, r') \<Rightarrow> (raising res (\<lambda>t. Inr (Resolved t)), r'))"
  by (simp add: TypeRef_attribute_def)

lemma TypeRef_attribute_forwarded:
  "name \<noteq> ''inner_type'' \<Longrightarrow> name \<notin> TypeRef_own_attributes \<union> inherited \<Longrightarrow>
   TypeRef_attribute inherited reg r name =
     (case inner_type reg r of
        (res, r') \<Rightarrow> (raising res (\<lambda>t. raising (type_getattr t name) (\<lambda>v. Inr (Forwarded v))), r'))"
  by (cases "inner_type reg r"; cases "fst (inner_type reg r)")
     (auto simp: TypeRef_attribute_def TypeRef_getattr_def)

text \<open>
  C2, with a resolver that is called again after it raised, and with the attribute
  accesses that reach it. \<open>get\<close> and subscript access are the same; they return a new
  \<open>TypeRef\<close> with an empty cache, without calling the resolver, and neither read nor
  change the name table. The accesses that resolve are \<open>load\<close>, \<open>dump\<close>, reading the
  property \<open>inner_type\<close>, and reading an attribute that normal lookup does not find
  on the \<open>TypeRef\<close>, for which \<open>__getattr__\<close> runs. Such an access to a \<open>TypeRef\<close> whose
  cache is empty calls the resolver once: when the name is not registered at that
  time it raises the lookup error and the cache stays empty, so the next access calls
  the resolver again; when the name is registered the access behaves as the
  registered type does and the type is cached. Such an access to a \<open>TypeRef\<close> whose
  cache is filled behaves as the cached type does, in whatever state the registry is,
  and never calls the resolver again. Reading an attribute of the \<open>TypeRef\<close> itself
  (\<open>_get_type\<close>, \<open>_inner_type\<close>, \<open>load\<close>, \<open>dump\<close>, an inherited one) never calls the
  resolver and leaves the cache as it is.
\<close>

theorem TypeRef_resolution:
  "snd (TypeRegistry_get reg name) = reg \<and>
   fst (TypeRegistry_get reg name) = fst (TypeRegistry_get reg' name) \<and>
   TypeRegistry_getitem reg name = TypeRegistry_get reg name \<and>
   get_type (fst (TypeRegistry_get reg name)) = (\<lambda>self. TypeRegistry__get self name) \<and>
   inner_type_cache (fst (TypeRegistry_get reg name)) = None \<and>
   resolver_calls (fst (TypeRegistry_get reg name)) = 0 \<and>
   (get_type r = (\<lambda>self. TypeRegistry__get self name) \<and> inner_type_cache r = None \<and>
    types reg name = None \<longrightarrow>
      TypeRef_load reg r xs =
        (Inl (KeyError (''Type with name '' @ [CHR 0x22] @ name @ [CHR 0x22] @
                        '' is not registered'')),
         r\<lparr>resolver_calls := Suc (resolver_calls r)\<rparr>) \<and>
      TypeRef_dump reg r xs =
        (Inl (KeyError (''Type with name '' @ [CHR 0x22] @ name @ [CHR 0x22] @
                        '' is not registered'')),
         r\<lparr>resolver_calls := Suc (resolver_calls r)\<rparr>) \<and>
      TypeRef_attribute inherited reg r ''inner_type'' =
        (Inl (KeyError (''Type with name '' @ [CHR 0x22] @ name @ [CHR 0x22] @
                        '' is not registered'')),
         r\<lparr>resolver_calls := Suc (resolver_calls r)\<rparr>) \<and>
      (attr \<noteq> ''inner_type'' \<and> attr \<notin> TypeRef_own_attributes \<union> inherited \<longrightarrow>
         TypeRef_attribute inherited reg r attr =
           (Inl (KeyError (''Type with name '' @ [CHR 0x22] @ name @ [CHR 0x22] @
                           '' is not registered'')),
            r\<lparr>resolver_calls := Suc (resolver_calls r)\<rparr>))) \<and>
   (get_type r = (\<lambda>self. TypeRegistry__get self name) \<and> inner_type_cache r = None \<and>
    types reg name = Some t \<longrightarrow>
      TypeRef_load reg r xs =
        (type_load t xs,
         r\<lparr>inner_type_cache := Some t, resolver_calls := Suc (resolver_calls r)\<rparr>) \<and>
      TypeRef_dump reg r xs =
        (type_dump t xs,
         r\<lparr>inner_type_cache := Some t, resolver_calls := Suc (resolver_calls r)\<rparr>) \<and>
      TypeRef_attribute inherited reg r ''inner_type'' =
        (Inr (Resolved t),
         r\<lparr>inner_type_cache := Some t, resolver_calls := Suc (resolver_calls r)\<rparr>) \<and>
      (attr \<noteq> ''inner_type'' \<and> attr \<notin> TypeRef_own_attributes \<union> inherited \<longrightarrow>
         TypeRef_attribute inherited reg r attr =
           (raising (type_getattr t attr) (\<lambda>v. Inr (Forwarded v)),
            r\<lparr>inner_type_cache := Some t, resolver_calls := Suc (resolver_calls r)\<rparr>))) \<and>
   (inner_type_cache r = Some t \<longrightarrow>
      TypeRef_load reg r xs = (type_load t xs, r) \<and>
      TypeRef_dump reg r xs = (type_dump t xs, r) \<and>
      TypeRef_attribute inherited reg r ''inner_type'' = (Inr (Resolved t), r) \<and>
      (attr \<noteq> ''inner_type'' \<and> attr \<notin> TypeRef_own_attributes \<union> inherited \<longrightarrow>
         TypeRef_attribute inherited reg r attr =
           (raising (type_getattr t attr) (\<lambda>v. Inr (Forwarded v)), r)) \<and>
      foldl (\<lambda>r' (reg, xs). snd (TypeRef_load reg r' xs)) r steps = r) \<and>
   (attr \<noteq> ''inner_type'' \<and> attr \<in> TypeRef_own_attributes \<union> inherited \<longrightarrow>
      TypeRef_attribute inherited reg r attr = (Inr (Own attr), r)) \<and>
   ''_get_type'' \<in> TypeRef_own_attributes \<and> ''_inner_type'' \<in> TypeRef_own_attributes \<and>
   ''load'' \<in> TypeRef_own_attributes \<and> ''dump'' \<in> TypeRef_own_attributes"
proof -
  have made: "snd (TypeRegistry_get reg name) = reg \<and>
      fst (TypeRegistry_get reg name) = fst (TypeRegistry_get reg' name) \<and>
      TypeRegistry_getitem reg name = TypeRegistry_get reg name \<and>
      get_type (fst (TypeRegistry_get reg name)) = (\<lambda>self. TypeRegistry__get self name) \<and>
      inner_type_cache (fst (TypeRegistry_get reg name)) = None \<and>
      resolver_calls (fst (TypeRegistry_get reg name)) = 0"
    by (simp add: TypeRegistry_get_def TypeRegistry_getitem_def TypeRef_init_def)
  have absent: "TypeRef_load reg r xs =
        (Inl (KeyError (''Type with name '' @ [CHR 0x22] @ name @ [CHR 0x22] @
                        '' is not registered'')),
         r\<lparr>resolver_calls := Suc (resolver_calls r)\<rparr>) \<and>
      TypeRef_dump reg r xs =
        (Inl (KeyError (''Type with name '' @ [CHR 0x22] @ name @ [CHR 0x22] @
                        '' is not registered'')),
         r\<lparr>resolver_calls := Suc (resolver_calls r)\<rparr>) \<and>
      TypeRef_attribute inherited reg r ''inner_type'' =
        (Inl (KeyError (''Type with name '' @ [CHR 0x22] @ name @ [CHR 0x22] @
                        '' is not registered'')),
         r\<lparr>resolver_calls := Suc (resolver_calls r)\<rparr>) \<and>
      (attr \<noteq> ''inner_type'' \<and> attr \<notin> TypeRef_own_attributes \<union> inherited \<longrightarrow>
         TypeRef_attribute inherited reg r attr =
           (Inl (KeyError (''Type with name '' @ [CHR 0x22] @ name @ [CHR 0x22] @
                           '' is not registered'')),
            r\<lparr>resolver_calls := Suc (resolver_calls r)\<rparr>))"
    if "get_type r = (\<lambda>self. TypeRegistry__get self name) \<and> inner_type_cache r = None \<and>
        types reg name = None"
    using that inner_type_unresolved_absent[of r name reg]
    by (simp add: TypeRef_load_def TypeRef_dump_def TypeRef_attribute_property
        TypeRef_attribute_forwarded)
  have present: "TypeRef_load reg r xs =
        (type_load t xs,
         r\<lparr>inner_type_cache := Some t, resolver_calls := Suc (resolver_calls r)\<rparr>) \<and>
      TypeRef_dump reg r xs =
        (type_dump t xs,
         r\<lparr>inner_type_cache := Some t, resolver_calls := Suc (resolver_calls r)\<rparr>) \<and>
      TypeRef_attribute inherited reg r ''inner_type'' =
        (Inr (Resolved t),
         r\<lparr>inner_type_cache := Some t, resolver_calls := Suc (resolver_calls r)\<rparr>) \<and>
      (attr \<noteq> ''inner_type'' \<and> attr \<notin> TypeRef_own_attributes \<union> inherited \<longrightarrow>
         TypeRef_attribute inherited reg r attr =
           (raising (type_getattr t attr) (\<lambda>v. Inr (Forwarded v)),
            r\<lparr>inner_type_cache := Some t, resolver_calls := Suc (resolver_calls r)\<rparr>))"
    if "get_type r = (\<lambda>self. TypeRegistry__get self name) \<and> inner_type_cache r = None \<and>
        types reg name = Some t"
    using that inner_type_unresolved_present[of r name reg t]
    by (simp add: TypeRef_load_def TypeRef_dump_def TypeRef_attribute_property
        TypeRef_attribute_forwarded)
  have cached: "TypeRef_load reg r xs = (type_load t xs, r) \<and>
      TypeRef_dump reg r xs = (type_dump t xs, r) \<and>
      TypeRef_attribute inherited reg r ''inner_type'' = (Inr (Resolved t), r) \<and>
      (attr \<noteq> ''inner_type'' \<and> attr \<notin> TypeRef_own_attributes \<union> inherited \<longrightarrow>
         TypeRef_attribute inherited reg r attr =
           (raising (type_getattr t attr) (\<lambda>v. Inr (Forwarded v)), r)) \<and>
      foldl (\<lambda>r' (reg, xs). snd (TypeRef_load reg r' xs)) r steps = r"
    if "inner_type_cache r = Some t"
    using that inner_type_resolved[of r t reg] loads_resolved[of r t steps]
    by (simp add: TypeRef_load_def TypeRef_dump_def TypeRef_attribute_property
        TypeRef_attribute_forwarded)
  have own: "TypeRef_attribute inherited reg r attr = (Inr (Own attr), r)"
    if "attr \<noteq> ''inner_type'' \<and> attr \<in> TypeRef_own_attributes \<union> inherited"
    using that TypeRef_attribute_own[of attr inherited reg r] by simp
  have names: "''_get_type'' \<in> TypeRef_own_attributes \<and> ''_inner_type'' \<in> TypeRef_own_attributes \<and>
      ''load'' \<in> TypeRef_own_attributes \<and> ''dump'' \<in> TypeRef_own_attributes"
    by (simp add: TypeRef_own_attributes_def)
  show ?thesis
    using made absent present cached own names by blast
qed

text \<open>
  C2 with a resolver that is called at most once does not hold: an access before the
  name is registered calls it and raises, and the access after the registration calls
  it again.
\<close>

theorem TypeRef_resolver_twice_counterexample:
  "(let T = \<lparr>type_load = (\<lambda>xs. Inr (VStr ''loaded'')), type_dump = (\<lambda>xs. Inr VNone),
             type_getattr = (\<lambda>n. Inl (AttributeError n))\<rparr>;
        reg0 = TypeRegistry_init;
        r0 = fst (TypeRegistry_get reg0 ''X'');
        first = TypeRef_load reg0 r0 [VInt 1];
        reg1 = snd (TypeRegistry_add reg0 ''X'' T);
        second = TypeRef_load reg1 (snd first) [VInt 1]
    in fst first = Inl (KeyError (''Type with name '' @ [CHR 0x22] @ ''X'' @ [CHR 0x22] @
                                   '' is not registered'')) \<and>
       fst second = Inr (VStr ''loaded'') \<and>
       resolver_calls (snd second) = 2)"
  by (simp add: Let_def TypeRegistry_init_def TypeRegistry_get_def TypeRef_init_def
      TypeRef_load_def inner_type_def TypeRegistry__get_def TypeRegistry_add_def)

theorem TypeRef_resolution_witness:
  "(let T = \<lparr>type_load = (\<lambda>xs. Inr (VStr ''loaded'')), type_dump = (\<lambda>xs. Inr (VStr ''dumped'')),
             type_getattr = (\<lambda>n. if n = ''title'' then Inr (VStr ''a title'')
                                   else Inl (AttributeError n))\<rparr>;
        r0 = fst (TypeRegistry_get TypeRegistry_init ''X'');
        reg1 = snd (TypeRegistry_add TypeRegistry_init ''X'' T);
        r1 = snd (TypeRef_load TypeRegistry_init r0 [VInt 1]);
        r2 = snd (TypeRef_load reg1 r1 [VInt 1])
    in TypeRef_attribute {} TypeRegistry_init r0 ''_inner_type'' = (Inr (Own ''_inner_type''), r0) \<and>
       TypeRef_attribute {} TypeRegistry_init r0 ''load'' = (Inr (Own ''load''), r0) \<and>
       fst (TypeRef_load TypeRegistry_init r0 [VInt 1]) =
         Inl (KeyError (''Type with name '' @ [CHR 0x22] @ ''X'' @ [CHR 0x22] @
                        '' is not registered'')) \<and>
       inner_type_cache r1 = None \<and>
       fst (TypeRef_load reg1 r1 [VInt 1]) = Inr (VStr ''loaded'') \<and>
       inner_type_cache r2 = Some T \<and>
       TypeRef_dump TypeRegistry_init r2 [VInt 1] = (Inr (VStr ''dumped''), r2) \<and>
       TypeRef_attribute {} TypeRegistry_init r2 ''title'' =
         (Inr (Forwarded (VStr ''a title'')), r2))"
proof -
  let ?T = "\<lparr>type_load = (\<lambda>xs. Inr (VStr ''loaded'')),
             type_dump = (\<lambda>xs. Inr (VStr ''dumped'')),
             type_getattr = (\<lambda>n. if n = ''title'' then Inr (VStr ''a title'')
                                   else Inl (AttributeError n))\<rparr>"
  let ?r0 = "fst (TypeRegistry_get TypeRegistry_init ''X'')"
  let ?reg1 = "snd (TypeRegistry_add TypeRegistry_init ''X'' ?T)"
  let ?r1 = "?r0\<lparr>resolver_calls := Suc 0\<rparr>"
  let ?r2 = "?r0\<lparr>inner_type_cache := Some ?T, resolver_calls := Suc (Suc 0)\<rparr>"
  have fresh: "get_type ?r0 = (\<lambda>self. TypeRegistry__get self ''X'')"
    "inner_type_cache ?r0 = None" "resolver_calls ?r0 = 0"
    using TypeRef_resolution[where reg=TypeRegistry_init and name="''X''"
        and reg'=TypeRegistry_init and r="?r0" and t="?T" and xs="[]" and attr="''a''"
        and steps="[]" and inherited="{}"]
    by simp_all
  have none: "types TypeRegistry_init ''X'' = None"
    by (simp add: TypeRegistry_init_def)
  have some: "types ?reg1 ''X'' = Some ?T"
    by (simp add: TypeRegistry_add_def TypeRegistry_init_def)
  have a1: "TypeRef_attribute {} TypeRegistry_init ?r0 ''_inner_type'' =
      (Inr (Own ''_inner_type''), ?r0)"
    using TypeRef_resolution[where reg=TypeRegistry_init and name="''X''" and r="?r0"
        and xs="[VInt 1]" and reg'=TypeRegistry_init and attr="''_inner_type''" and steps="[]"
        and t="?T" and inherited="{}"]
    by (simp add: fresh)
  have a2: "TypeRef_attribute {} TypeRegistry_init ?r0 ''load'' = (Inr (Own ''load''), ?r0)"
    using TypeRef_resolution[where reg=TypeRegistry_init and name="''X''" and r="?r0"
        and xs="[VInt 1]" and reg'=TypeRegistry_init and attr="''load''" and steps="[]"
        and t="?T" and inherited="{}"]
    by (simp add: fresh)
  have s1: "TypeRef_load TypeRegistry_init ?r0 [VInt 1] =
      (Inl (KeyError (''Type with name '' @ [CHR 0x22] @ ''X'' @ [CHR 0x22] @
                      '' is not registered'')), ?r1)"
    using none
      TypeRef_resolution[where reg=TypeRegistry_init and name="''X''" and r="?r0"
        and xs="[VInt 1]" and reg'=TypeRegistry_init and attr="''a''" and steps="[]"
        and t="?T" and inherited="{}"]
    by (simp add: fresh)
  have s2: "TypeRef_load ?reg1 ?r1 [VInt 1] = (Inr (VStr ''loaded''), ?r2)"
    using some
      TypeRef_resolution[where reg="?reg1" and name="''X''" and r="?r1" and t="?T"
        and xs="[VInt 1]" and reg'=TypeRegistry_init and attr="''a''" and steps="[]"
        and inherited="{}"]
    by (simp add: fresh)
  have s3: "TypeRef_dump TypeRegistry_init ?r2 [VInt 1] = (Inr (VStr ''dumped''), ?r2) \<and>
      TypeRef_attribute {} TypeRegistry_init ?r2 ''title'' =
        (Inr (Forwarded (VStr ''a title'')), ?r2)"
    using TypeRef_resolution[where reg=TypeRegistry_init and r="?r2" and t="?T"
        and xs="[VInt 1]" and name="''X''" and reg'=TypeRegistry_init and attr="''title''"
        and steps="[]" and inherited="{}"]
    by (simp add: fresh TypeRef_own_attributes_def)
  show ?thesis
    using s3 a1 a2 by (simp add: Let_def s1 s2 fresh)
qed

subsection \<open>Each\<close>

lemma add_error_fresh:
  "k \<notin> fst ` set b \<Longrightarrow> add_error k m b = b @ [(k, [m])]"
  by (induction b) auto

lemma add_error_last:
  "k \<notin> fst ` set b \<Longrightarrow> add_error k m (b @ [(k, ms)]) = b @ [(k, ms @ [m])]"
  by (induction b) auto

lemma Each_recorded_Nil: "Each_recorded [] item = []"
  by (simp add: Each_recorded_def)

lemma Each_recorded_Cons:
  "Each_recorded (v # vs) item =
     (case v item VNone of Inl (ValidationError ve) \<Rightarrow> [ve] | _ \<Rightarrow> []) @ Each_recorded vs item"
  by (simp add: Each_recorded_def split: sum.splits error.splits)

text \<open>The inner loop, started with the payloads \<open>ms\<close> already recorded under the index.\<close>

lemma Each_item_started:
  "Idx idx \<notin> fst ` set b \<Longrightarrow>
   \<forall>v \<in> set vs. v item VNone = Inr () \<or> (\<exists>ve. v item VNone = Inl (ValidationError ve)) \<Longrightarrow>
   Each_item vs idx item (b @ [(Idx idx, ms)]) =
     Inr (b @ [(Idx idx, ms @ Each_recorded vs item)])"
proof (induction vs arbitrary: ms)
  case Nil
  then show ?case by (simp add: Each_recorded_Nil)
next
  case (Cons v vs)
  from Cons.prems(2) consider "v item VNone = Inr ()"
    | ve where "v item VNone = Inl (ValidationError ve)"
    by auto
  then show ?case
  proof cases
    case 1
    then show ?thesis
      using Cons.IH[OF Cons.prems(1), of ms] Cons.prems(2)
      by (simp add: Each_recorded_Cons)
  next
    case 2
    then show ?thesis
      using Cons.IH[OF Cons.prems(1), of "ms @ [ve]"] Cons.prems
      by (simp add: Each_recorded_Cons add_error_last)
  qed
qed

lemma Each_item_fresh:
  "Idx idx \<notin> fst ` set b \<Longrightarrow>
   \<forall>v \<in> set vs. v item VNone = Inr () \<or> (\<exists>ve. v item VNone = Inl (ValidationError ve)) \<Longrightarrow>
   Each_item vs idx item b =
     Inr (if Each_recorded vs item = [] then b else b @ [(Idx idx, Each_recorded vs item)])"
proof (induction vs)
  case Nil
  then show ?case by (simp add: Each_recorded_Nil)
next
  case (Cons v vs)
  from Cons.prems(2) consider "v item VNone = Inr ()"
    | ve where "v item VNone = Inl (ValidationError ve)"
    by auto
  then show ?case
  proof cases
    case 1
    then show ?thesis
      using Cons.IH[OF Cons.prems(1)] Cons.prems(2)
      by (simp add: Each_recorded_Cons)
  next
    case 2
    then show ?thesis
      using Each_item_started[OF Cons.prems(1), of vs item "[ve]"] Cons.prems
      by (simp add: Each_recorded_Cons add_error_fresh)
  qed
qed

lemma Each_combined_Nil: "Each_combined vs start [] = []"
  by (simp add: Each_combined_def enumerate_eq_zip)

lemma Each_combined_Cons:
  "Each_combined vs start (item # items) =
     (if Each_recorded vs item = [] then [] else [(Idx start, Each_recorded vs item)]) @
     Each_combined vs (Suc start) items"
  by (simp add: Each_combined_def)

lemma Each_loop_accumulates:
  "\<forall>k \<in> fst ` set b. \<exists>j < idx. k = Idx j \<Longrightarrow>
   \<forall>item \<in> set items. \<forall>v \<in> set vs.
      v item VNone = Inr () \<or> (\<exists>ve. v item VNone = Inl (ValidationError ve)) \<Longrightarrow>
   Each_loop vs idx items b = Inr (b @ Each_combined vs idx items)"
proof (induction items arbitrary: idx b)
  case Nil
  then show ?case by (simp add: Each_combined_Nil)
next
  case (Cons item items)
  have fresh: "Idx idx \<notin> fst ` set b"
    using Cons.prems(1) by auto
  let ?b = "if Each_recorded vs item = [] then b else b @ [(Idx idx, Each_recorded vs item)]"
  have step: "Each_item vs idx item b = Inr ?b"
    using Each_item_fresh[OF fresh, of vs item] Cons.prems(2) by simp
  have keys: "\<forall>k \<in> fst ` set ?b. \<exists>j < Suc idx. k = Idx j"
    using Cons.prems(1) by (auto intro: less_SucI)
  have "Each_loop vs (Suc idx) items ?b = Inr (?b @ Each_combined vs (Suc idx) items)"
    using Cons.IH[OF keys] Cons.prems(2) by simp
  then show ?case
    using step by (simp add: Each_combined_Cons)
qed

lemma Each_combined_empty:
  "\<forall>item \<in> set items. \<forall>v \<in> set vs. v item VNone = Inr () \<Longrightarrow>
   Each_combined vs start items = []"
proof (induction items arbitrary: start)
  case Nil
  then show ?case by (simp add: Each_combined_Nil)
next
  case (Cons item items)
  have "Each_recorded vs item = []"
    using Cons.prems by (induction vs) (auto simp: Each_recorded_Nil Each_recorded_Cons)
  then show ?case
    using Cons by (simp add: Each_combined_Cons)
qed
lemma Each_init_fields:
  "each_validators (Each_init (Inr vs) em) = vs"
  "each_validators (Each_init (Inl v) em) = [v]"
  "\<exists>t. each_messages (Each_init validators em) ''invalid'' = Some t"
  by (auto simp: Each_init_def ErrorMessagesMixin_init_def Each_default_error_messages_def
      map_add_def split: option.splits)

text \<open>
  C1. \<open>Each\<close> fails with the key \<open>invalid\<close> on a value that is not a sequence. On a
  sequence, with validators that return or raise a \<open>ValidationError\<close> on its items,
  it calls every validator on every item and stops at none of the failures: the
  outcome is decided by the failures of all the validators on all the items. When
  none fails it raises nothing; otherwise it raises one \<open>ValidationError\<close> whose payload
  maps, in the order of the indices, each index at which some validator fails to the
  payloads of the failures at that index, in the order of the validators.
\<close>

theorem Each_call_accumulates:
  "(\<exists>t. each_messages (Each_init validators em) ''invalid'' = Some t \<and>
      (\<not> is_sequence val \<longrightarrow>
         Each_call fmt (Each_init validators em) val ctx =
           Inl (ValidationError (Msg (fmt t [(''data'', val)]))))) \<and>
   (py_iter val = Inr items \<and>
    (\<forall>item \<in> set items. \<forall>v \<in> set vs.
       v item VNone = Inr () \<or> (\<exists>ve. v item VNone = Inl (ValidationError ve))) \<longrightarrow>
      Each_call fmt (Each_init (Inr vs) em) val ctx =
        (if Each_combined vs 0 items = [] then Inr ()
         else Inl (ValidationError
                (MsgDict (map (\<lambda>(k, ms). (k, MsgList ms)) (Each_combined vs 0 items)))))) \<and>
   (py_iter val = Inr items \<and> (\<forall>item \<in> set items. \<forall>v \<in> set vs. v item VNone = Inr ()) \<longrightarrow>
      Each_call fmt (Each_init (Inr vs) em) val ctx = Inr ())"
proof -
  obtain t where t: "each_messages (Each_init validators em) ''invalid'' = Some t"
    using Each_init_fields(3) by blast
  have invalid: "Each_call fmt (Each_init validators em) val ctx =
      Inl (ValidationError (Msg (fmt t [(''data'', val)])))" if "\<not> is_sequence val"
    using that t by (simp add: Each_call_def fail_def)
  have acc: "Each_call fmt (Each_init (Inr vs) em) val ctx =
        (if Each_combined vs 0 items = [] then Inr ()
         else Inl (ValidationError
                (MsgDict (map (\<lambda>(k, ms). (k, MsgList ms)) (Each_combined vs 0 items)))))"
    if a: "py_iter val = Inr items \<and>
      (\<forall>item \<in> set items. \<forall>v \<in> set vs.
         v item VNone = Inr () \<or> (\<exists>ve. v item VNone = Inl (ValidationError ve)))"
  proof -
    have "Each_loop vs 0 items [] = Inr ([] @ Each_combined vs 0 items)"
      using a by (intro Each_loop_accumulates) auto
    then show ?thesis
      using a py_iter_is_sequence[of val items]
      by (simp add: Each_call_def Each_init_fields ValidationErrorBuilder_init_def
          raise_errors_def)
  qed
  have ok: "Each_call fmt (Each_init (Inr vs) em) val ctx = Inr ()"
    if b: "py_iter val = Inr items \<and> (\<forall>item \<in> set items. \<forall>v \<in> set vs. v item VNone = Inr ())"
  proof -
    have "Each_combined vs 0 items = []"
      using b Each_combined_empty[of items vs 0] by simp
    moreover have "py_iter val = Inr items \<and>
      (\<forall>item \<in> set items. \<forall>v \<in> set vs.
         v item VNone = Inr () \<or> (\<exists>ve. v item VNone = Inl (ValidationError ve)))"
      using b by simp
    ultimately show ?thesis
      using acc by simp
  qed
  show ?thesis
    using t invalid acc ok by blast
qed

theorem Each_call_accumulates_witness:
  "Each_call (\<lambda>t kw. t)
     (Each_init (Inr [Length_call (\<lambda>t kw. t) (Length_init None (Some 1) None None Map.empty),
                      Length_call (\<lambda>t kw. t) (Length_init None None (Some 5) None Map.empty)])
        Map.empty)
     (VList [VStr ''ok'', VStr [], VStr ''ok'']) VNone =
     Inl (ValidationError (MsgDict [(Idx 1, MsgList [Msg ''Length should be at least {min}''])])) \<and>
   Each_call (\<lambda>t kw. t)
     (Each_init (Inr [Length_call (\<lambda>t kw. t) (Length_init None (Some 2) None None Map.empty),
                      Length_call (\<lambda>t kw. t) (Length_init (Some 3) None None None Map.empty)])
        Map.empty)
     (VList [VStr ''abc'', VStr ''a'', VStr ''ab'']) VNone =
     Inl (ValidationError (MsgDict
       [(Idx 1, MsgList [Msg ''Length should be at least {min}'', Msg ''Length should be {exact}'']),
        (Idx 2, MsgList [Msg ''Length should be {exact}''])])) \<and>
   Each_call (\<lambda>t kw. t)
     (Each_init (Inr [Length_call (\<lambda>t kw. t) (Length_init None (Some 1) None None Map.empty),
                      Length_call (\<lambda>t kw. t) (Length_init None None (Some 5) None Map.empty)])
        Map.empty)
     (VList [VStr ''ok'']) VNone = Inr () \<and>
   Each_call (\<lambda>t kw. t)
     (Each_init (Inr [Length_call (\<lambda>t kw. t) (Length_init None (Some 1) None None Map.empty)])
        Map.empty)
     (VInt 3) VNone = Inl (ValidationError (Msg ''Value should be collection''))"
proof -
  let ?min1 = "Length_call (\<lambda>t (kw :: (string \<times> pyval) list). t) (Length_init None (Some 1) None None Map.empty)"
  let ?max5 = "Length_call (\<lambda>t (kw :: (string \<times> pyval) list). t) (Length_init None None (Some 5) None Map.empty)"
  let ?min2 = "Length_call (\<lambda>t (kw :: (string \<times> pyval) list). t) (Length_init None (Some 2) None None Map.empty)"
  let ?ex3 = "Length_call (\<lambda>t (kw :: (string \<times> pyval) list). t) (Length_init (Some 3) None None None Map.empty)"
  have L: "Length_call (\<lambda>t kw. t) (Length_init ex mn mx None Map.empty) (VStr s) c =
      (let n = int (length s) in
       case ex of
         Some k \<Rightarrow> if n \<noteq> k then Inl (ValidationError (Msg ''Length should be {exact}'')) else Inr ()
       | None \<Rightarrow>
          (case (mn, mx) of
             (Some lo, Some hi) \<Rightarrow> if n < lo \<or> n > hi
               then Inl (ValidationError (Msg ''Length should be at least {min} and at most {max}''))
               else Inr ()
           | (Some lo, None) \<Rightarrow> if n < lo
               then Inl (ValidationError (Msg ''Length should be at least {min}'')) else Inr ()
           | (None, Some hi) \<Rightarrow> if n > hi
               then Inl (ValidationError (Msg ''Length should be at most {max}'')) else Inr ()
           | (None, None) \<Rightarrow> Inr ()))" for ex mn mx s c
    by (simp add: Length_call_def Length_fail_def fail_def Length_init_def
        ErrorMessagesMixin_init_def Length_default_error_messages_def Let_def
        split: option.splits)
  have p1: "Each_call (\<lambda>t kw. t) (Each_init (Inr [?min1, ?max5]) Map.empty)
      (VList [VStr ''ok'', VStr [], VStr ''ok'']) VNone =
      Inl (ValidationError (MsgDict [(Idx 1, MsgList [Msg ''Length should be at least {min}''])]))"
    using Each_call_accumulates[where vs="[?min1, ?max5]" and em=Map.empty
        and val="VList [VStr ''ok'', VStr [], VStr ''ok'']"
        and items="[VStr ''ok'', VStr [], VStr ''ok'']" and fmt="\<lambda>t kw. t" and ctx=VNone
        and validators="Inr [?min1, ?max5]"]
    by (simp add: L Each_combined_Cons Each_combined_Nil Each_recorded_Cons Each_recorded_Nil)
  have p2: "Each_call (\<lambda>t kw. t) (Each_init (Inr [?min2, ?ex3]) Map.empty)
      (VList [VStr ''abc'', VStr ''a'', VStr ''ab'']) VNone =
      Inl (ValidationError (MsgDict
       [(Idx 1, MsgList [Msg ''Length should be at least {min}'', Msg ''Length should be {exact}'']),
        (Idx 2, MsgList [Msg ''Length should be {exact}''])]))"
    using Each_call_accumulates[where vs="[?min2, ?ex3]" and em=Map.empty
        and val="VList [VStr ''abc'', VStr ''a'', VStr ''ab'']"
        and items="[VStr ''abc'', VStr ''a'', VStr ''ab'']" and fmt="\<lambda>t kw. t" and ctx=VNone
        and validators="Inr [?min2, ?ex3]"]
    by (simp add: L Each_combined_Cons Each_combined_Nil Each_recorded_Cons Each_recorded_Nil)
  have p3: "Each_call (\<lambda>t kw. t) (Each_init (Inr [?min1, ?max5]) Map.empty)
      (VList [VStr ''ok'']) VNone = Inr ()"
    using Each_call_accumulates[where vs="[?min1, ?max5]" and em=Map.empty
        and val="VList [VStr ''ok'']"
        and items="[VStr ''ok'']" and fmt="\<lambda>t kw. t" and ctx=VNone
        and validators="Inr [?min1, ?max5]"]
    by (simp add: L Each_combined_Cons Each_combined_Nil Each_recorded_Cons Each_recorded_Nil)
  have p4: "Each_call (\<lambda>t kw. t) (Each_init (Inr [?min1]) Map.empty) (VInt 3) VNone =
      Inl (ValidationError (Msg ''Value should be collection''))"
    using Each_call_accumulates[where vs="[?min1]" and em=Map.empty
        and val="VInt 3" and items="[]" and fmt="\<lambda>t kw. t" and ctx=VNone
        and validators="Inr [?min1]"]
    by (simp add: Each_init_def ErrorMessagesMixin_init_def Each_default_error_messages_def)
  from p1 p2 p3 p4 show ?thesis by simp
qed

text \<open>
  C10. \<open>Each\<close> never passes its context on: the outcome is the same for every
  context, and a validator that fails whenever it is given a context other than
  \<open>None\<close> succeeds under \<open>Each\<close> called with such a context.
\<close>

theorem Each_call_ignores_context:
  "Each_call fmt e val c1 = Each_call fmt e val c2 \<and>
   Each_call fmt
     (Each_init (Inr [\<lambda>v c. if c = VNone then Inr ()
                            else Inl (ValidationError (Msg ''context given''))]) Map.empty)
     (VList [VInt 1, VInt 2]) (VStr ''a context'') = Inr ()"
  by (simp add: Each_call_def Each_init_def ValidationErrorBuilder_init_def raise_errors_def)

end
